theory Spec2Isabelle
  imports Complex_Main
begin

section \<open>Energy-aware sensor node simulator: the model\<close>

text \<open>
  A shallow embedding of \<^verbatim>\<open>sensor_sim/models.py\<close>, \<^verbatim>\<open>sensor_sim/policies.py\<close> and
  \<^verbatim>\<open>sensor_sim/simulator.py\<close>.

  Conventions of the embedding:
  \<^item> A finite Python \<^verbatim>\<open>float\<close> is the \<open>real\<close> it denotes, a real for which \<open>is_float\<close>
    holds. The quotient of line 50, which decides the number of ticks, is rounded as a
    double, and \<^verbatim>\<open>int()\<close> and the conversion of an \<^verbatim>\<open>int\<close> to a float raise as in Python.
    The other arithmetic on floats (the signal, the noise, the energies, the product
    \<open>i * dt_s\<close>) is over the reals, without rounding or overflow; the fields of the two
    configuration classes are finite.
  \<^item> Python \<^verbatim>\<open>int\<close> is \<open>int\<close>; the two counters, which only count up from zero, are
    \<open>nat\<close>.
  \<^item> A raised exception is a value \<open>Inl e\<close> of \<open>error + 'a\<close>.
  \<^item> Objects that are mutated (the policy, the state of module \<^verbatim>\<open>random\<close>) are passed
    explicitly and returned updated.
  \<^item> The field \<^verbatim>\<open>t\<close> of \<^verbatim>\<open>SimResult\<close> is called \<open>t_list\<close>, and a local variable of
    \<^verbatim>\<open>simulate\<close> carries the suffix \<open>_v\<close>, since a field of \<^verbatim>\<open>SimResult\<close> or a
    method of \<^verbatim>\<open>EnergyModel\<close> has the same name.
\<close>

subsection \<open>Python primitives\<close>

datatype error = ZeroDivisionError | OverflowError | ValueError | NotImplementedError

text \<open>\<^verbatim>\<open>a % b\<close> on ints: raises on zero, otherwise the floor remainder, which is \<open>mod\<close>.\<close>

definition py_mod :: "int \<Rightarrow> int \<Rightarrow> error + int" where
  "py_mod a b = (if b = 0 then Inl ZeroDivisionError else Inr (a mod b))"

text \<open>\<^verbatim>\<open>round(x)\<close> of a float rounds to the nearest integer, a tie to the even one.\<close>

definition py_round :: "real \<Rightarrow> int" where
  "py_round x =
     (let f = \<lfloor>x\<rfloor>; d = x - of_int f
      in if d < 1 / 2 then f
         else if 1 / 2 < d then f + 1
         else if even f then f else f + 1)"

text \<open>
  A float that an operation returns: a finite double, an infinity or a NaN.
\<close>

datatype pyfloat = Finite real | PosInf | NegInf | NaN

text \<open>
  The double nearest to a real, a tie to the even significand (IEEE 754 binary64): for
  \<^verbatim>\<open>2^e <= |x| < 2^(e+1)\<close> the doubles are the multiples of \<^verbatim>\<open>2^(e-52)\<close>, and below
  \<^verbatim>\<open>2^(-1022)\<close> the multiples of \<^verbatim>\<open>2^(-1074)\<close>. A result of magnitude \<^verbatim>\<open>2^1024\<close> or more is
  out of range: the operation returns an infinity.
\<close>

definition fl_round :: "real \<Rightarrow> real" where
  "fl_round x =
     (if x = 0 then 0
      else (let e = max (- 1022) \<lfloor>log 2 \<bar>x\<bar>\<rfloor>; u = 2 powi (e - 52)
            in of_int (py_round (x / u)) * u))"

definition to_float :: "real \<Rightarrow> pyfloat" where
  "to_float x =
     (let r = fl_round x
      in if 2 ^ 1024 \<le> r then PosInf else if r \<le> - (2 ^ 1024) then NegInf else Finite r)"

text \<open>The reals that are finite doubles.\<close>

definition is_float :: "real \<Rightarrow> bool" where
  "is_float x \<longleftrightarrow> fl_round x = x \<and> \<bar>x\<bar> < 2 ^ 1024"

text \<open>
  The conversion of an \<^verbatim>\<open>int\<close> operand to a float: \<^verbatim>\<open>OverflowError\<close> when the nearest
  double is out of range.
\<close>

definition int_to_float :: "int \<Rightarrow> error + real" where
  "int_to_float n =
     (case to_float (of_int n) of Finite x \<Rightarrow> Inr x | _ \<Rightarrow> Inl OverflowError)"

text \<open>
  \<^verbatim>\<open>x / y\<close> on finite floats: raises when the divisor is zero, otherwise the rounded
  quotient, an infinity when it is out of range.
\<close>

definition float_div :: "real \<Rightarrow> real \<Rightarrow> error + pyfloat" where
  "float_div x y = (if y = 0 then Inl ZeroDivisionError else Inr (to_float (x / y)))"

text \<open>\<^verbatim>\<open>n / y\<close> for an \<^verbatim>\<open>int\<close> and a float: the \<^verbatim>\<open>int\<close> is converted first.\<close>

definition py_truediv :: "int \<Rightarrow> real \<Rightarrow> error + pyfloat" where
  "py_truediv n y = (case int_to_float n of Inl e \<Rightarrow> Inl e | Inr x \<Rightarrow> float_div x y)"

text \<open>
  \<^verbatim>\<open>int(x)\<close> of a float truncates towards zero; it raises \<^verbatim>\<open>OverflowError\<close> on an infinity
  and \<^verbatim>\<open>ValueError\<close> on a NaN.
\<close>

definition py_int :: "pyfloat \<Rightarrow> error + int" where
  "py_int q =
     (case q of
        Finite x \<Rightarrow> Inr (if 0 \<le> x then \<lfloor>x\<rfloor> else \<lceil>x\<rceil>)
      | PosInf \<Rightarrow> Inl OverflowError
      | NegInf \<Rightarrow> Inl OverflowError
      | NaN \<Rightarrow> Inl ValueError)"

text \<open>
  Module \<^verbatim>\<open>random\<close> is not part of the repository. Its state is taken to be the sequence
  of standard normal variates that the coming calls of \<^verbatim>\<open>gauss\<close> will draw;
  \<^verbatim>\<open>random.seed(n)\<close> installs a state that depends on \<open>n\<close> only, a parameter
  \<open>seeded\<close> of the simulation. \<^verbatim>\<open>gauss(mu, sigma)\<close> returns \<^verbatim>\<open>mu + z * sigma\<close> for the next
  variate \<open>z\<close> and advances the state.
\<close>

type_synonym rng = "nat \<Rightarrow> real"

definition gauss :: "rng \<Rightarrow> real \<Rightarrow> real \<Rightarrow> real \<times> rng" where
  "gauss g mu sigma = (mu + g 0 * sigma, \<lambda>k. g (Suc k))"

subsection \<open>\<^verbatim>\<open>models.py\<close>\<close>

record EnergyModel =
  power_sleep_mw :: real
  power_idle_awake_mw :: real
  power_cpu_mw :: real
  power_sense_mw :: real
  power_tx_mw :: real
  t_sense_s :: real
  t_cpu_s :: real
  bitrate_bps :: real
  tx_overhead_s :: real

definition default_EnergyModel :: EnergyModel where
  "default_EnergyModel =
     \<lparr>power_sleep_mw = 0.5, power_idle_awake_mw = 15, power_cpu_mw = 35,
      power_sense_mw = 25, power_tx_mw = 120, t_sense_s = 0.010, t_cpu_s = 0.004,
      bitrate_bps = 250000, tx_overhead_s = 0.002\<rparr>"

definition e_sleep :: "EnergyModel \<Rightarrow> real \<Rightarrow> real" where
  "e_sleep self dt = power_sleep_mw self * dt"

definition e_idle_awake :: "EnergyModel \<Rightarrow> real \<Rightarrow> real" where
  "e_idle_awake self dt = power_idle_awake_mw self * dt"

definition e_sense :: "EnergyModel \<Rightarrow> real" where
  "e_sense self = power_sense_mw self * t_sense_s self"

definition e_cpu :: "EnergyModel \<Rightarrow> real" where
  "e_cpu self = power_cpu_mw self * t_cpu_s self"

text \<open>
  In \<^verbatim>\<open>e_tx\<close> the \<^verbatim>\<open>int\<close> \<open>bits\<close> is converted to a float and divided by the bitrate; both
  steps can raise. The quotient is an energy term and, like all energies, a real.
\<close>

definition e_tx :: "EnergyModel \<Rightarrow> int \<Rightarrow> error + real" where
  "e_tx self payload =
     (let bits = payload * 8
      in case int_to_float bits of
           Inl e \<Rightarrow> Inl e
         | Inr b \<Rightarrow>
             if bitrate_bps self = 0 then Inl ZeroDivisionError
             else Inr (power_tx_mw self * (tx_overhead_s self + b / bitrate_bps self)))"

record NodeConfig =
  duration_s :: int
  dt_s :: real
  payload_bytes :: int
  seed :: int
  signal_base :: real
  signal_amp :: real
  signal_period_s :: real
  noise_std :: real
  change_threshold :: real
  max_silence_s :: int

definition default_NodeConfig :: NodeConfig where
  "default_NodeConfig =
     \<lparr>duration_s = 600, dt_s = 1, payload_bytes = 24, seed = 42, signal_base = 20,
      signal_amp = 3, signal_period_s = 120, noise_std = 0.2, change_threshold = 0.5,
      max_silence_s = 30\<rparr>"

record SimResult =
  t_list :: "int list"
  truth :: "real list"
  measured :: "real option list"
  sent :: "bool list"
  reconstructed :: "real list"
  energy_total_mj :: real
  energy_breakdown_mj :: "(string \<times> real) list"
  samples_taken :: nat
  packets_sent :: nat
  mae :: real

subsection \<open>\<^verbatim>\<open>policies.py\<close>\<close>

record PolicyOutput =
  awake :: bool
  take_sample :: bool
  transmit :: bool

text \<open>
  The four classes, each constructor holding the instance attributes that \<^verbatim>\<open>step\<close>
  reads (\<^verbatim>\<open>name\<close> is not read by the simulator). The last attribute of
  \<open>AdaptiveThresholdPolicy\<close> is \<^verbatim>\<open>_last_tx_value\<close>.
\<close>

datatype policy =
    BasePolicy
  | FixedSamplingPolicy (sample_every_s: int)
  | DutyCyclingPolicy (wake_every_s: int) (awake_window_s: int) (sample_every_s: int)
  | AdaptiveThresholdPolicy (base_every_s: int) (threshold: real) (max_silence: int)
      (last_tx_value_p: "real option")

text \<open>The \<^verbatim>\<open>__init__\<close> methods, on integer arguments (\<^verbatim>\<open>int(n)\<close> is then \<open>n\<close>).\<close>

definition new_FixedSamplingPolicy :: "int \<Rightarrow> policy" where
  "new_FixedSamplingPolicy n = FixedSamplingPolicy (max 1 n)"

definition new_DutyCyclingPolicy :: "int \<Rightarrow> int \<Rightarrow> int \<Rightarrow> policy" where
  "new_DutyCyclingPolicy w a n = DutyCyclingPolicy (max 1 w) (max 1 a) (max 1 n)"

definition new_AdaptiveThresholdPolicy :: "int \<Rightarrow> real \<Rightarrow> int \<Rightarrow> policy" where
  "new_AdaptiveThresholdPolicy b th ms = AdaptiveThresholdPolicy (max 1 b) th (max 1 ms) None"

fun reset :: "policy \<Rightarrow> policy" where
  "reset (AdaptiveThresholdPolicy b th ms v) = AdaptiveThresholdPolicy b th ms None"
| "reset p = p"

text \<open>The transmit decision of \<^verbatim>\<open>AdaptiveThresholdPolicy.step\<close>, lines 81 to 92.\<close>

definition adaptive_transmit ::
  "real \<Rightarrow> int \<Rightarrow> real option \<Rightarrow> int \<Rightarrow> real \<Rightarrow> int option \<Rightarrow> bool" where
  "adaptive_transmit th ms v t_s lm last_tx =
     (let transmit1 = (case v of None \<Rightarrow> True | Some tv \<Rightarrow> th \<le> \<bar>lm - tv\<bar>)
      in if \<not> transmit1
         then (case last_tx of None \<Rightarrow> False | Some lt \<Rightarrow> ms \<le> t_s - lt)
         else True)"

fun step :: "policy \<Rightarrow> int \<Rightarrow> real option \<Rightarrow> int option \<Rightarrow> error + (PolicyOutput \<times> policy)" where
  "step BasePolicy t_s last_m last_tx = Inl NotImplementedError"
| "step (FixedSamplingPolicy n) t_s last_m last_tx =
     (case py_mod t_s n of
        Inl e \<Rightarrow> Inl e
      | Inr r \<Rightarrow>
          (let do = (r = 0)
           in Inr (\<lparr>awake = True, take_sample = do, transmit = do\<rparr>, FixedSamplingPolicy n)))"
| "step (DutyCyclingPolicy w a n) t_s last_m last_tx =
     (case py_mod t_s w of
        Inl e \<Rightarrow> Inl e
      | Inr phase \<Rightarrow>
          (let awake = (phase < a)
           in if awake
              then (case py_mod t_s n of
                      Inl e \<Rightarrow> Inl e
                    | Inr r \<Rightarrow>
                        (let do = (r = 0)
                         in Inr (\<lparr>awake = awake, take_sample = do, transmit = do\<rparr>,
                                 DutyCyclingPolicy w a n)))
              else Inr (\<lparr>awake = awake, take_sample = False, transmit = False\<rparr>,
                        DutyCyclingPolicy w a n)))"
| "step (AdaptiveThresholdPolicy b th ms v) t_s last_m last_tx =
     (case py_mod t_s b of
        Inl e \<Rightarrow> Inl e
      | Inr r \<Rightarrow>
          (let take_sample = (r = 0)
           in case last_m of
                Some lm \<Rightarrow>
                  if take_sample
                  then (let transmit = adaptive_transmit th ms v t_s lm last_tx
                        in Inr (\<lparr>awake = True, take_sample = take_sample, transmit = transmit\<rparr>,
                                AdaptiveThresholdPolicy b th ms (if transmit then Some lm else v)))
                  else Inr (\<lparr>awake = True, take_sample = take_sample, transmit = False\<rparr>,
                            AdaptiveThresholdPolicy b th ms v)
              | None \<Rightarrow>
                  Inr (\<lparr>awake = True, take_sample = take_sample, transmit = False\<rparr>,
                       AdaptiveThresholdPolicy b th ms v)))"

subsection \<open>\<^verbatim>\<open>simulator.py\<close>\<close>

definition ground_truth :: "int \<Rightarrow> NodeConfig \<Rightarrow> real" where
  "ground_truth t_s cfg =
     (let w = (2 * pi) / max 1 (signal_period_s cfg)
      in signal_base cfg + signal_amp cfg * sin (w * of_int t_s)
         + 0.25 * sin (w * 0.33 * of_int t_s))"

text \<open>
  The local variables of \<^verbatim>\<open>simulate\<close>, with the two objects it mutates: the policy
  (of any class \<open>'p\<close>) and the state of module \<^verbatim>\<open>random\<close>.
\<close>

record 'p locals =
  policy_v :: 'p
  random_v :: rng
  t_v :: "int list"
  truth_v :: "real list"
  measured_v :: "real option list"
  sent_v :: "bool list"
  reconstructed_v :: "real list"
  e_sleep_v :: real
  e_idle_v :: real
  e_sense_v :: real
  e_cpu_v :: real
  e_tx_v :: real
  last_measurement :: "real option"
  last_tx_value :: "real option"
  last_tx_s :: "int option"
  samples_taken_v :: nat
  packets_sent_v :: nat
  recon_val :: real

text \<open>
  Lines 24 to 48: \<^verbatim>\<open>random.seed(cfg.seed)\<close> replaces the state \<open>g\<close> that module
  \<^verbatim>\<open>random\<close> had before the call, \<^verbatim>\<open>policy.reset()\<close> is the method \<open>rst\<close> of the
  policy's class.
\<close>

definition init_locals ::
  "('p \<Rightarrow> 'p) \<Rightarrow> (int \<Rightarrow> rng) \<Rightarrow> 'p \<Rightarrow> NodeConfig \<Rightarrow> rng \<Rightarrow> 'p locals" where
  "init_locals rst seeded policy cfg g =
     \<lparr>policy_v = rst policy, random_v = seeded (seed cfg),
      t_v = [], truth_v = [], measured_v = [], sent_v = [], reconstructed_v = [],
      e_sleep_v = 0, e_idle_v = 0, e_sense_v = 0, e_cpu_v = 0, e_tx_v = 0,
      last_measurement = None, last_tx_value = None, last_tx_s = None,
      samples_taken_v = 0, packets_sent_v = 0,
      recon_val = ground_truth 0 cfg\<rparr>"

text \<open>Lines 60 to 63: idle or sleep energy of the step.\<close>

definition accrue_step :: "NodeConfig \<Rightarrow> EnergyModel \<Rightarrow> PolicyOutput \<Rightarrow> 'p locals \<Rightarrow> 'p locals" where
  "accrue_step cfg energy out st =
     (if awake out
      then st\<lparr>e_idle_v := e_idle_v st + e_idle_awake energy (dt_s cfg)\<rparr>
      else st\<lparr>e_sleep_v := e_sleep_v st + e_sleep energy (dt_s cfg)\<rparr>)"

text \<open>Lines 65 to 76: the sample of the step; the first component is \<^verbatim>\<open>mval\<close>.\<close>

definition sense_step ::
  "NodeConfig \<Rightarrow> EnergyModel \<Rightarrow> PolicyOutput \<Rightarrow> real \<Rightarrow> 'p locals \<Rightarrow> real option \<times> 'p locals" where
  "sense_step cfg energy out gt st =
     (if awake out \<and> take_sample out
      then (case gauss (random_v st) 0 (noise_std cfg) of
              (noise, g') \<Rightarrow>
                (let mval = gt + noise
                 in (Some mval,
                     st\<lparr>random_v := g',
                        last_measurement := Some mval,
                        e_sense_v := e_sense_v st + e_sense energy,
                        e_cpu_v := e_cpu_v st + e_cpu energy,
                        samples_taken_v := samples_taken_v st + 1\<rparr>)))
      else (None, st))"

text \<open>Lines 66 and 78 to 85: the transmission of the step; the first component is \<^verbatim>\<open>did_tx\<close>.\<close>

definition transmit_step ::
  "NodeConfig \<Rightarrow> EnergyModel \<Rightarrow> PolicyOutput \<Rightarrow> int \<Rightarrow> 'p locals \<Rightarrow> error + (bool \<times> 'p locals)" where
  "transmit_step cfg energy out now_s st =
     (case last_measurement st of
        Some lm \<Rightarrow>
          if awake out \<and> transmit out
          then (case e_tx energy (payload_bytes cfg) of
                  Inl e \<Rightarrow> Inl e
                | Inr c \<Rightarrow>
                    Inr (True,
                         st\<lparr>e_tx_v := e_tx_v st + c,
                            packets_sent_v := packets_sent_v st + 1,
                            last_tx_s := Some now_s,
                            last_tx_value := Some lm,
                            recon_val := lm\<rparr>))
          else Inr (False, st)
      | None \<Rightarrow> Inr (False, st))"

text \<open>Line 52: the time of the tick at index \<open>i\<close>.\<close>

definition now_s_at :: "NodeConfig \<Rightarrow> nat \<Rightarrow> int" where
  "now_s_at cfg i = py_round (real i * dt_s cfg)"

text \<open>
  Lines 52 to 89: the body of the loop at index \<open>i\<close>; \<open>stp\<close> is the method
  \<^verbatim>\<open>step\<close> of the policy's class.
\<close>

definition tick ::
  "('p \<Rightarrow> int \<Rightarrow> real option \<Rightarrow> int option \<Rightarrow> error + (PolicyOutput \<times> 'p)) \<Rightarrow>
   NodeConfig \<Rightarrow> EnergyModel \<Rightarrow> nat \<Rightarrow> 'p locals \<Rightarrow> error + 'p locals" where
  "tick stp cfg energy i st =
     (let now_s = now_s_at cfg i;
          gt = ground_truth now_s cfg
      in case stp (policy_v st) now_s (last_measurement st) (last_tx_s st) of
           Inl e \<Rightarrow> Inl e
         | Inr (out, policy') \<Rightarrow>
             (case sense_step cfg energy out gt
                     (accrue_step cfg energy out
                        (st\<lparr>policy_v := policy', t_v := t_v st @ [now_s],
                           truth_v := truth_v st @ [gt]\<rparr>)) of
                (mval, st1) \<Rightarrow>
                  (case transmit_step cfg energy out now_s st1 of
                     Inl e \<Rightarrow> Inl e
                   | Inr (did_tx, st2) \<Rightarrow>
                       Inr (st2\<lparr>measured_v := measured_v st2 @ [mval],
                              sent_v := sent_v st2 @ [did_tx],
                              reconstructed_v := reconstructed_v st2 @ [recon_val st2]\<rparr>))))"

text \<open>The \<^verbatim>\<open>for\<close> loop over the indices \<open>is\<close>; an exception ends it.\<close>

fun loop ::
  "('p \<Rightarrow> int \<Rightarrow> real option \<Rightarrow> int option \<Rightarrow> error + (PolicyOutput \<times> 'p)) \<Rightarrow>
   NodeConfig \<Rightarrow> EnergyModel \<Rightarrow> nat list \<Rightarrow> 'p locals \<Rightarrow> error + 'p locals" where
  "loop stp cfg energy [] st = Inr st"
| "loop stp cfg energy (i # is) st =
     (case tick stp cfg energy i st of
        Inl e \<Rightarrow> Inl e
      | Inr st' \<Rightarrow> loop stp cfg energy is st')"

text \<open>Lines 91 to 95: the mean absolute error.\<close>

definition mae_of :: "real list \<Rightarrow> real list \<Rightarrow> real" where
  "mae_of truth_l recon_l =
     foldl (\<lambda>abs_err_sum (gt, rv). abs_err_sum + \<bar>gt - rv\<bar>) 0 (zip truth_l recon_l)
       / of_int (max 1 (int (length truth_l)))"

text \<open>Lines 91 to 117: the result built from the locals when the loop has ended.\<close>

definition result :: "'p locals \<Rightarrow> SimResult" where
  "result st =
     \<lparr>t_list = t_v st, truth = truth_v st, measured = measured_v st, sent = sent_v st,
      reconstructed = reconstructed_v st,
      energy_total_mj = e_sleep_v st + e_idle_v st + e_sense_v st + e_cpu_v st + e_tx_v st,
      energy_breakdown_mj =
        [(''sleep'', e_sleep_v st), (''idle_awake'', e_idle_v st), (''sensing'', e_sense_v st),
         (''cpu'', e_cpu_v st), (''tx'', e_tx_v st)],
      samples_taken = samples_taken_v st, packets_sent = packets_sent_v st,
      mae = mae_of (truth_v st) (reconstructed_v st)\<rparr>"

text \<open>Line 50: \<^verbatim>\<open>steps = int(cfg.duration_s / cfg.dt_s)\<close>.\<close>

definition steps_of :: "NodeConfig \<Rightarrow> error + int" where
  "steps_of cfg =
     (case py_truediv (duration_s cfg) (dt_s cfg) of
        Inl e \<Rightarrow> Inl e
      | Inr q \<Rightarrow> py_int q)"

text \<open>
  \<^verbatim>\<open>simulate(policy, cfg, energy)\<close>, called when module \<^verbatim>\<open>random\<close> is in state \<open>g\<close>.
  Besides the result it returns the policy and the state of \<^verbatim>\<open>random\<close> as the call
  leaves them. The step count of line 50 is computed before the loop; the loop runs over
  \<^verbatim>\<open>range(steps + 1)\<close>, which is empty when \<open>steps + 1 \<le> 0\<close>.
\<close>

definition simulate ::
  "('p \<Rightarrow> 'p) \<Rightarrow>
   ('p \<Rightarrow> int \<Rightarrow> real option \<Rightarrow> int option \<Rightarrow> error + (PolicyOutput \<times> 'p)) \<Rightarrow>
   (int \<Rightarrow> rng) \<Rightarrow> 'p \<Rightarrow> NodeConfig \<Rightarrow> EnergyModel \<Rightarrow> rng \<Rightarrow>
   error + (SimResult \<times> 'p \<times> rng)" where
  "simulate rst stp seeded policy cfg energy g =
     (let st0 = init_locals rst seeded policy cfg g
      in case steps_of cfg of
           Inl e \<Rightarrow> Inl e
         | Inr steps \<Rightarrow>
             (case loop stp cfg energy [0 ..< nat (steps + 1)] st0 of
                Inl e \<Rightarrow> Inl e
              | Inr st \<Rightarrow> Inr (result st, policy_v st, random_v st)))"

subsection \<open>Notions used to state the properties\<close>

text \<open>
  The formula the specification gives for the signal: the base, the primary sinusoid of
  period \<open>signal_period_s\<close>, and a harmonic of amplitude 0.25 at 0.33 times the primary
  frequency. It follows the specification's words, to be compared with \<open>ground_truth\<close>.
\<close>

definition ground_truth_spec :: "int \<Rightarrow> NodeConfig \<Rightarrow> real" where
  "ground_truth_spec t_s cfg =
     signal_base cfg + signal_amp cfg * sin (2 * pi * of_int t_s / signal_period_s cfg)
       + 0.25 * sin (2 * pi * 0.33 * of_int t_s / signal_period_s cfg)"

text \<open>A configuration with a signal period of half a second.\<close>

definition fast_signal_cfg :: NodeConfig where
  "fast_signal_cfg = default_NodeConfig\<lparr>signal_base := 0, signal_amp := 1, signal_period_s := 1 / 2\<rparr>"

text \<open>
  The locals of \<^verbatim>\<open>simulate\<close> when the loop reaches index \<open>i\<close>, that is after the ticks
  \<open>0, \<dots>, i - 1\<close>, and the call \<^verbatim>\<open>policy.step(now_s, last_measurement, last_tx_s)\<close> of
  line 58 that tick \<open>i\<close> then makes.
\<close>

definition locals_before ::
  "('p \<Rightarrow> 'p) \<Rightarrow>
   ('p \<Rightarrow> int \<Rightarrow> real option \<Rightarrow> int option \<Rightarrow> error + (PolicyOutput \<times> 'p)) \<Rightarrow>
   (int \<Rightarrow> rng) \<Rightarrow> 'p \<Rightarrow> NodeConfig \<Rightarrow> EnergyModel \<Rightarrow> rng \<Rightarrow> nat \<Rightarrow> error + 'p locals" where
  "locals_before rst stp seeded policy cfg energy g i =
     loop stp cfg energy [0 ..< i] (init_locals rst seeded policy cfg g)"


text \<open>The last entry of a list of optional values that is present.\<close>

fun last_present :: "'a option list \<Rightarrow> 'a option" where
  "last_present [] = None"
| "last_present (x # xs) = (case last_present xs of Some y \<Rightarrow> Some y | None \<Rightarrow> x)"

text \<open>An energy model whose nine parameters are all non-negative.\<close>

definition energy_nonneg :: "EnergyModel \<Rightarrow> bool" where
  "energy_nonneg em \<longleftrightarrow>
     0 \<le> power_sleep_mw em \<and> 0 \<le> power_idle_awake_mw em \<and> 0 \<le> power_cpu_mw em \<and>
     0 \<le> power_sense_mw em \<and> 0 \<le> power_tx_mw em \<and> 0 \<le> t_sense_s em \<and>
     0 \<le> t_cpu_s em \<and> 0 \<le> bitrate_bps em \<and> 0 \<le> tx_overhead_s em"

text \<open>
  A policy object whose \<^verbatim>\<open>step\<close> can be called: an instance of one of the three concrete
  classes, with the non-zero periods that \<^verbatim>\<open>__init__\<close> gives it.
\<close>

fun usable :: "policy \<Rightarrow> bool" where
  "usable BasePolicy = False"
| "usable (FixedSamplingPolicy n) = (n \<noteq> 0)"
| "usable (DutyCyclingPolicy w a n) = (w \<noteq> 0 \<and> n \<noteq> 0)"
| "usable (AdaptiveThresholdPolicy b th ms v) = (b \<noteq> 0)"

text \<open>Inputs for concrete runs: a random source whose variates are all zero.\<close>

definition still_rng :: rng where
  "still_rng = (\<lambda>k. 0)"

definition still_seeded :: "int \<Rightarrow> rng" where
  "still_seeded = (\<lambda>n k. 0)"

text \<open>
  A policy class outside the repository, as a caller may write one: always awake, it
  samples at time 0 only and asks for a transmission at every tick. It has no state.
\<close>

definition resend_reset :: "unit \<Rightarrow> unit" where
  "resend_reset u = u"

definition resend_step ::
  "unit \<Rightarrow> int \<Rightarrow> real option \<Rightarrow> int option \<Rightarrow> error + (PolicyOutput \<times> unit)" where
  "resend_step u t_s last_m last_tx =
     Inr (\<lparr>awake = True, take_sample = (t_s = 0), transmit = True\<rparr>, u)"

text \<open>
  Any two values present in a list of optional measurements differ by less than \<open>d\<close>.
\<close>

definition measurements_within :: "real \<Rightarrow> real option list \<Rightarrow> bool" where
  "measurements_within d ms =
     list_all (\<lambda>x. list_all (\<lambda>y. case (x, y) of
                                      (Some a, Some b) \<Rightarrow> \<bar>a - b\<bar> < d
                                    | _ \<Rightarrow> True) ms) ms"

text \<open>
  The invariant of the loop for \<^verbatim>\<open>AdaptiveThresholdPolicy(2, 1000, 10)\<close> and a time step of
  one second, as long as the threshold is not reached: the locals when the loop reaches
  index \<open>i\<close>. The policy has sent at the times \<open>2, 12, 22, \<dots>\<close> so far.
\<close>

definition keepalive_inv :: "nat \<Rightarrow> policy locals \<Rightarrow> bool" where
  "keepalive_inv i st \<longleftrightarrow>
     (\<exists>v. policy_v st = AdaptiveThresholdPolicy 2 1000 10 v
          \<and> (v = None \<longleftrightarrow> i \<le> 2) \<and> (v = None \<or> v \<in> set (measured_v st)))
     \<and> (last_measurement st = None \<longleftrightarrow> i = 0)
     \<and> (if i \<le> 2 then last_tx_s st = None
          else (\<exists>lt. last_tx_s st = Some lt \<and> lt mod 10 = 2 \<and> lt < int i \<and> int i \<le> lt + 10))
     \<and> sent_v st = map (\<lambda>k. k mod 10 = 2) [0 ..< i]
     \<and> samples_taken_v st = (i + 1) div 2
     \<and> packets_sent_v st = (i + 7) div 10"

text \<open>
  A policy that records its calls: an object of any class \<open>'p\<close> together with the
  arguments \<open>(t_s, last_measurement, last_tx_s)\<close> of the calls of \<^verbatim>\<open>step\<close> made since the last
  \<^verbatim>\<open>reset\<close>, in order. Its methods are those of the class \<open>'p\<close>, and \<^verbatim>\<open>step\<close> appends its
  arguments to the list.
\<close>

type_synonym call = "int \<times> real option \<times> int option"

definition recording_reset :: "('p \<Rightarrow> 'p) \<Rightarrow> 'p \<times> call list \<Rightarrow> 'p \<times> call list" where
  "recording_reset rst pl = (rst (fst pl), [])"

definition recording_step ::
  "('p \<Rightarrow> int \<Rightarrow> real option \<Rightarrow> int option \<Rightarrow> error + (PolicyOutput \<times> 'p)) \<Rightarrow>
   'p \<times> call list \<Rightarrow> int \<Rightarrow> real option \<Rightarrow> int option \<Rightarrow>
   error + (PolicyOutput \<times> ('p \<times> call list))" where
  "recording_step stp pl t_s last_m last_tx =
     (case stp (fst pl) t_s last_m last_tx of
        Inl e \<Rightarrow> Inl e
      | Inr (out, p') \<Rightarrow> Inr (out, (p', snd pl @ [(t_s, last_m, last_tx)])))"

text \<open>
  The locals of a run with a recording policy, read as locals of a run with the policy
  that it wraps.
\<close>

definition forget :: "('p \<times> call list) locals \<Rightarrow> 'p locals" where
  "forget st =
     \<lparr>policy_v = fst (policy_v st), random_v = random_v st,
      t_v = t_v st, truth_v = truth_v st, measured_v = measured_v st, sent_v = sent_v st,
      reconstructed_v = reconstructed_v st,
      e_sleep_v = e_sleep_v st, e_idle_v = e_idle_v st, e_sense_v = e_sense_v st,
      e_cpu_v = e_cpu_v st, e_tx_v = e_tx_v st,
      last_measurement = last_measurement st, last_tx_value = last_tx_value st,
      last_tx_s = last_tx_s st,
      samples_taken_v = samples_taken_v st, packets_sent_v = packets_sent_v st,
      recon_val = recon_val st\<rparr>"


definition literal_0_1 :: real where
  "literal_0_1 = fl_round (1 / 10)"

text \<open>A configuration of 30 seconds without sensor noise.\<close>

definition noiseless_cfg :: NodeConfig where
  "noiseless_cfg = default_NodeConfig\<lparr>duration_s := 30, noise_std := 0\<rparr>"

section \<open>Properties\<close>

subsection \<open>The loop, tick by tick\<close>

lemma loop_append:
  "loop stp cfg energy (xs @ ys) st =
     (case loop stp cfg energy xs st of
        Inl e \<Rightarrow> Inl e
      | Inr st' \<Rightarrow> loop stp cfg energy ys st')"
  by (induction xs arbitrary: st) (auto split: sum.splits)

lemma loop_snoc:
  "loop stp cfg energy (xs @ [i]) st =
     (case loop stp cfg energy xs st of
        Inl e \<Rightarrow> Inl e
      | Inr st' \<Rightarrow> tick stp cfg energy i st')"
  by (simp add: loop_append split: sum.splits)

lemma locals_before_Suc:
  "locals_before rst stp seeded policy cfg energy g (Suc i) =
     (case locals_before rst stp seeded policy cfg energy g i of
        Inl e \<Rightarrow> Inl e
      | Inr st \<Rightarrow> tick stp cfg energy i st)"
  by (simp add: locals_before_def loop_snoc)

text \<open>What a tick that returns has done, in terms of its three stages.\<close>

lemma tick_InrE:
  assumes "tick stp cfg energy i st = Inr st'"
  obtains out policy' mval st1 did_tx st2 where
    "stp (policy_v st) (now_s_at cfg i) (last_measurement st) (last_tx_s st) = Inr (out, policy')"
    "sense_step cfg energy out (ground_truth (now_s_at cfg i) cfg)
       (accrue_step cfg energy out
          (st\<lparr>policy_v := policy', t_v := t_v st @ [now_s_at cfg i],
             truth_v := truth_v st @ [ground_truth (now_s_at cfg i) cfg]\<rparr>)) = (mval, st1)"
    "transmit_step cfg energy out (now_s_at cfg i) st1 = Inr (did_tx, st2)"
    "st' = st2\<lparr>measured_v := measured_v st2 @ [mval], sent_v := sent_v st2 @ [did_tx],
               reconstructed_v := reconstructed_v st2 @ [recon_val st2]\<rparr>"
  using assms
  by (auto simp: tick_def Let_def split: sum.splits prod.splits)

lemma accrue_step_lists [simp]:
  "t_v (accrue_step cfg energy out st) = t_v st"
  "truth_v (accrue_step cfg energy out st) = truth_v st"
  "measured_v (accrue_step cfg energy out st) = measured_v st"
  "sent_v (accrue_step cfg energy out st) = sent_v st"
  "reconstructed_v (accrue_step cfg energy out st) = reconstructed_v st"
  "last_measurement (accrue_step cfg energy out st) = last_measurement st"
  "last_tx_s (accrue_step cfg energy out st) = last_tx_s st"
  "policy_v (accrue_step cfg energy out st) = policy_v st"
  by (simp_all add: accrue_step_def)

lemma sense_step_lists:
  assumes "sense_step cfg energy out gt st = (mval, st1)"
  shows "t_v st1 = t_v st" "truth_v st1 = truth_v st" "measured_v st1 = measured_v st"
    "sent_v st1 = sent_v st" "reconstructed_v st1 = reconstructed_v st"
    "policy_v st1 = policy_v st" "last_tx_s st1 = last_tx_s st"
  using assms
  by (auto simp: sense_step_def gauss_def Let_def split: if_splits)

lemma sense_step_measurement:
  assumes "sense_step cfg energy out gt st = (mval, st1)"
  shows "last_measurement st1 = (case mval of Some m \<Rightarrow> Some m | None \<Rightarrow> last_measurement st)"
  using assms
  by (auto simp: sense_step_def gauss_def Let_def split: if_splits)

lemma transmit_step_lists:
  assumes "transmit_step cfg energy out now_s st = Inr (did_tx, st2)"
  shows "t_v st2 = t_v st" "truth_v st2 = truth_v st" "measured_v st2 = measured_v st"
    "sent_v st2 = sent_v st" "reconstructed_v st2 = reconstructed_v st"
    "policy_v st2 = policy_v st" "last_measurement st2 = last_measurement st"
  using assms
  by (auto simp: transmit_step_def split: option.splits if_splits sum.splits)

lemma transmit_step_sent:
  assumes "transmit_step cfg energy out now_s st = Inr (did_tx, st2)" "did_tx"
  shows "last_measurement st \<noteq> None"
  using assms
  by (auto simp: transmit_step_def split: option.splits if_splits sum.splits)

lemma tick_lists:
  assumes "tick stp cfg energy i st = Inr st'"
  shows "t_v st' = t_v st @ [now_s_at cfg i]"
    "truth_v st' = truth_v st @ [ground_truth (now_s_at cfg i) cfg]"
    "length (measured_v st') = Suc (length (measured_v st))"
    "length (sent_v st') = Suc (length (sent_v st))"
    "length (reconstructed_v st') = Suc (length (reconstructed_v st))"
  using assms
  by (auto elim!: tick_InrE simp: sense_step_lists transmit_step_lists)

lemma loop_lengths:
  assumes "loop stp cfg energy xs st = Inr st'"
  shows "length (t_v st') = length (t_v st) + length xs"
    "length (truth_v st') = length (truth_v st) + length xs"
    "length (measured_v st') = length (measured_v st) + length xs"
    "length (sent_v st') = length (sent_v st) + length xs"
    "length (reconstructed_v st') = length (reconstructed_v st) + length xs"
  using assms
  by (induction xs arbitrary: st) (auto split: sum.splits simp: tick_lists)

subsection \<open>Floats\<close>

lemma py_round_of_int [simp]: "py_round (of_int m) = m"
  by (simp add: py_round_def)

lemma py_round_nonneg: "0 \<le> x \<Longrightarrow> 0 \<le> py_round x"
  by (auto simp: py_round_def Let_def)

lemma py_round_near:
  assumes "\<bar>x - of_int m\<bar> < 1 / 2"
  shows "py_round x = m"
proof -
  have "\<lfloor>x\<rfloor> = m \<or> \<lfloor>x\<rfloor> = m - 1"
    using assms by linarith
  then show ?thesis
  proof
    assume "\<lfloor>x\<rfloor> = m"
    moreover from this have "x - of_int m < 1 / 2"
      using assms by linarith
    ultimately show ?thesis
      by (simp add: py_round_def)
  next
    assume f: "\<lfloor>x\<rfloor> = m - 1"
    then have "x < of_int m"
      by linarith
    then have "1 / 2 < x - of_int (m - 1)"
      using assms by auto
    then show ?thesis
      by (simp add: py_round_def f)
  qed
qed

lemma fl_round_nonneg: "0 \<le> x \<Longrightarrow> 0 \<le> fl_round x"
  by (auto simp: fl_round_def Let_def intro!: mult_nonneg_nonneg py_round_nonneg)

text \<open>Rounding within a known binade.\<close>

lemma fl_round_at:
  assumes "2 powi e \<le> \<bar>x\<bar>" "\<bar>x\<bar> < 2 powi (e + 1)" "- 1022 \<le> e"
  shows "fl_round x = of_int (py_round (x / 2 powi (e - 52))) * 2 powi (e - 52)"
proof -
  have pos: "0 < \<bar>x\<bar>"
    using assms(1) by (smt (verit) zero_less_power_int)
  have p: "(2::real) powr real_of_int k = 2 powi k" for k
    by (rule powr_real_of_int') simp_all
  have "\<bar>x\<bar> < 2 powr (real_of_int e + 1)"
    using assms(2) p [of "e + 1"] by simp
  moreover have "(2::real) powr real_of_int e \<le> \<bar>x\<bar>"
    using assms(1) p [of e] by simp
  ultimately have "\<lfloor>log 2 \<bar>x\<bar>\<rfloor> = e"
    using pos by (simp add: floor_log_eq_powr_iff)
  then show ?thesis
    using pos assms(3) by (simp add: fl_round_def Let_def)
qed

lemma fl_round_eval:
  assumes "2 powi e \<le> \<bar>x\<bar>" "\<bar>x\<bar> < 2 powi (e + 1)" "- 1022 \<le> e"
    "\<bar>x / 2 powi (e - 52) - of_int m\<bar> < 1 / 2"
  shows "fl_round x = of_int m * 2 powi (e - 52)"
  unfolding fl_round_at [OF assms(1-3)] py_round_near [OF assms(4)] ..

text \<open>An integer below \<open>2 ^ 53\<close> is a double.\<close>

lemma fl_round_int:
  assumes "\<bar>n\<bar> < 2 ^ 53"
  shows "fl_round (of_int n) = of_int n"
proof (cases "n = 0")
  case True
  then show ?thesis by (simp add: fl_round_def)
next
  case False
  define e where "e = max (- 1022) \<lfloor>log 2 \<bar>real_of_int n\<bar>\<rfloor>"
  have "1 \<le> \<bar>real_of_int n\<bar>"
    using False by linarith
  moreover have "\<bar>real_of_int n\<bar> < 2 ^ 53"
    using assms by (metis of_int_abs of_int_less_numeral_power_cancel_iff)
  ultimately have "0 \<le> log 2 \<bar>real_of_int n\<bar>" "log 2 \<bar>real_of_int n\<bar> < 53"
    by (simp_all add: log_less_iff)
  then have e: "0 \<le> e" "e \<le> 52"
    unfolding e_def by (simp_all add: floor_le_iff le_floor_iff)
  define k where "k = nat (52 - e)"
  have u: "2 powi (e - 52) = 1 / (2 ^ k :: real)"
    using e by (simp add: power_int_def k_def field_simps)
  have "real_of_int n / 2 powi (e - 52) = of_int (n * 2 ^ k)"
    by (simp add: u)
  then have "py_round (real_of_int n / 2 powi (e - 52)) = n * 2 ^ k"
    by (simp only: py_round_of_int)
  then show ?thesis
    using False by (simp add: fl_round_def Let_def e_def [symmetric] u)
qed

lemma to_float_int:
  assumes "\<bar>n\<bar> < 2 ^ 53"
  shows "to_float (of_int n) = Finite (of_int n)"
proof -
  have "\<bar>real_of_int n\<bar> < 2 ^ 53"
    using assms by (metis of_int_abs of_int_less_numeral_power_cancel_iff)
  then have "\<not> 2 ^ 1024 \<le> real_of_int n" "\<not> real_of_int n \<le> - (2 ^ 1024)"
    by simp_all
  then show ?thesis
    by (simp add: to_float_def fl_round_int [OF assms])
qed

lemma int_to_float_small: "\<bar>n\<bar> < 2 ^ 53 \<Longrightarrow> int_to_float n = Inr (of_int n)"
  by (simp add: int_to_float_def to_float_int)

lemma int_to_float_nonneg:
  assumes "0 \<le> n" "int_to_float n = Inr b"
  shows "0 \<le> b"
proof -
  have "0 \<le> fl_round (real_of_int n)"
    using assms(1) by (intro fl_round_nonneg) simp
  then show ?thesis
    using assms(2)
    by (auto simp: int_to_float_def to_float_def Let_def split: if_splits pyfloat.splits)
qed

text \<open>The step count when the quotient is an integer, and for a positive configuration.\<close>

lemma steps_of_exact:
  assumes "\<bar>duration_s cfg\<bar> < 2 ^ 53" "dt_s cfg \<noteq> 0"
    "real_of_int (duration_s cfg) / dt_s cfg = of_int k" "\<bar>k\<bar> < 2 ^ 53"
  shows "steps_of cfg = Inr k"
  using assms(2)
  by (simp add: steps_of_def py_truediv_def int_to_float_small [OF assms(1)] float_div_def
      assms(3) to_float_int [OF assms(4)] py_int_def)

lemma steps_of_unit:
  assumes "dt_s cfg = 1" "\<bar>duration_s cfg\<bar> < 2 ^ 53"
  shows "steps_of cfg = Inr (duration_s cfg)"
  using assms by (intro steps_of_exact) simp_all

lemma steps_of_zero_dt:
  assumes "dt_s cfg = 0"
  shows "steps_of cfg = Inl ZeroDivisionError \<or> steps_of cfg = Inl OverflowError"
    and "\<bar>duration_s cfg\<bar> < 2 ^ 53 \<Longrightarrow> steps_of cfg = Inl ZeroDivisionError"
proof -
  show "steps_of cfg = Inl ZeroDivisionError \<or> steps_of cfg = Inl OverflowError"
    using assms
    by (auto simp: steps_of_def py_truediv_def int_to_float_def float_div_def
        split: pyfloat.splits)
  show "steps_of cfg = Inl ZeroDivisionError" if "\<bar>duration_s cfg\<bar> < 2 ^ 53"
    using assms
    by (simp add: steps_of_def py_truediv_def int_to_float_small [OF that] float_div_def)
qed


subsection \<open>When the simulation returns\<close>

lemma simulate_Inr_iff:
  "simulate rst stp seeded policy cfg energy g = Inr (r, p', g') \<longleftrightarrow>
     (\<exists>n st. steps_of cfg = Inr n
        \<and> loop stp cfg energy [0 ..< nat (n + 1)] (init_locals rst seeded policy cfg g) = Inr st
        \<and> r = result st \<and> p' = policy_v st \<and> g' = random_v st)"
  by (auto simp: simulate_def Let_def split: sum.splits)

lemma simulate_no_steps:
  "steps_of cfg = Inl e \<Longrightarrow> simulate rst stp seeded policy cfg energy g = Inl e"
  by (simp add: simulate_def)

lemma init_locals_lists [simp]:
  "t_v (init_locals rst seeded policy cfg g) = []"
  "truth_v (init_locals rst seeded policy cfg g) = []"
  "measured_v (init_locals rst seeded policy cfg g) = []"
  "sent_v (init_locals rst seeded policy cfg g) = []"
  "reconstructed_v (init_locals rst seeded policy cfg g) = []"
  "policy_v (init_locals rst seeded policy cfg g) = rst policy"
  "last_measurement (init_locals rst seeded policy cfg g) = None"
  "last_tx_s (init_locals rst seeded policy cfg g) = None"
  by (simp_all add: init_locals_def)

lemma result_lists [simp]:
  "t_list (result st) = t_v st" "truth (result st) = truth_v st"
  "measured (result st) = measured_v st" "sent (result st) = sent_v st"
  "reconstructed (result st) = reconstructed_v st"
  by (simp_all add: result_def)

lemma simulate_Inr_lengths:
  assumes "simulate rst stp seeded policy cfg energy g = Inr (r, p', g')"
  shows "\<exists>n. steps_of cfg = Inr n \<and> length (t_list r) = nat (n + 1)"
    "length (truth r) = length (t_list r)" "length (measured r) = length (t_list r)"
    "length (sent r) = length (t_list r)" "length (reconstructed r) = length (t_list r)"
proof -
  obtain n st where s: "steps_of cfg = Inr n"
    and l: "loop stp cfg energy [0 ..< nat (n + 1)] (init_locals rst seeded policy cfg g)
      = Inr st" and r: "r = result st"
    using assms unfolding simulate_Inr_iff by blast
  note k = loop_lengths [OF l]
  show "\<exists>n. steps_of cfg = Inr n \<and> length (t_list r) = nat (n + 1)"
    using k(1) s by (simp add: r)
  show "length (truth r) = length (t_list r)" "length (measured r) = length (t_list r)"
    "length (sent r) = length (t_list r)" "length (reconstructed r) = length (t_list r)"
    using k by (simp_all add: r)
qed

lemma simulate_length:
  assumes "simulate rst stp seeded policy cfg energy g = Inr (r, p', g')" "steps_of cfg = Inr n"
  shows "length (t_list r) = nat (n + 1)"
  using simulate_Inr_lengths(1) [OF assms(1)] assms(2) by auto

lemma step_usable:
  assumes "usable p"
  shows "\<exists>out p'. step p t last_m last_tx = Inr (out, p') \<and> usable p'"
  using assms
  by (cases p) (auto simp: py_mod_def Let_def split: option.splits)

lemma usable_reset [simp]: "usable (reset p) = usable p"
  by (cases p) simp_all

lemma sense_step_total: "\<exists>mval st1. sense_step cfg energy out gt st = (mval, st1)"
  by (cases "sense_step cfg energy out gt st") blast

lemma e_tx_returns:
  assumes "bitrate_bps energy \<noteq> 0" "\<bar>payload * 8\<bar> < 2 ^ 53"
  shows "\<exists>c. e_tx energy payload = Inr c"
  using assms(1) by (simp add: e_tx_def int_to_float_small [OF assms(2)])

lemma transmit_step_total:
  assumes "e_tx energy (payload_bytes cfg) = Inr c"
  shows "\<exists>did_tx st2. transmit_step cfg energy out now_s st = Inr (did_tx, st2)"
  using assms
  by (auto simp: transmit_step_def split: option.splits)

lemma tick_total:
  assumes "usable (policy_v st)" "e_tx energy (payload_bytes cfg) = Inr c"
  shows "\<exists>st'. tick step cfg energy i st = Inr st' \<and> usable (policy_v st')"
proof -
  obtain out p' where s: "step (policy_v st) (now_s_at cfg i) (last_measurement st) (last_tx_s st)
      = Inr (out, p')" and u: "usable p'"
    using step_usable [OF assms(1)] by blast
  obtain mval st1 where m: "sense_step cfg energy out (ground_truth (now_s_at cfg i) cfg)
       (accrue_step cfg energy out
          (st\<lparr>policy_v := p', t_v := t_v st @ [now_s_at cfg i],
             truth_v := truth_v st @ [ground_truth (now_s_at cfg i) cfg]\<rparr>)) = (mval, st1)"
    using sense_step_total by blast
  obtain did_tx st2 where t: "transmit_step cfg energy out (now_s_at cfg i) st1 = Inr (did_tx, st2)"
    using transmit_step_total [OF assms(2)] by blast
  have "policy_v st2 = p'"
    using sense_step_lists(6) [OF m] transmit_step_lists(6) [OF t] by simp
  then show ?thesis
    using s m t u by (simp add: tick_def Let_def)
qed

lemma loop_total:
  assumes "usable (policy_v st)" "e_tx energy (payload_bytes cfg) = Inr c"
  shows "\<exists>st'. loop step cfg energy xs st = Inr st' \<and> usable (policy_v st')"
  using assms(1)
proof (induction xs arbitrary: st)
  case Nil
  then show ?case by simp
next
  case (Cons i xs)
  obtain st1 where "tick step cfg energy i st = Inr st1" "usable (policy_v st1)"
    using tick_total [OF Cons.prems assms(2)] by blast
  then show ?case
    using Cons.IH [of st1] by simp
qed

text \<open>
  With a policy of a concrete class, the simulation returns when line 50 and \<^verbatim>\<open>e_tx\<close> do
  not raise.
\<close>

lemma simulate_returns:
  assumes "usable policy" "steps_of cfg = Inr n" "e_tx energy (payload_bytes cfg) = Inr c"
  shows "\<exists>r p' g'. simulate reset step seeded policy cfg energy g = Inr (r, p', g')"
proof -
  have "usable (policy_v (init_locals reset seeded policy cfg g))"
    using assms(1) by simp
  from loop_total [OF this assms(3)] show ?thesis
    unfolding simulate_Inr_iff using assms(2) by blast
qed

text \<open>
  The equations that evaluate a run on concrete inputs, once the step count of the
  configuration is known.
\<close>

lemmas run_simps =
  init_locals_def now_s_at_def py_round_def tick_def
  accrue_step_def sense_step_def transmit_step_def gauss_def py_mod_def result_def Let_def
  default_NodeConfig_def default_EnergyModel_def still_seeded_def still_rng_def upt_rec
  int_to_float_small

lemma is_float_int: "\<bar>n\<bar> < 2 ^ 53 \<Longrightarrow> is_float (of_int n)"
  unfolding is_float_def
proof
  assume n: "\<bar>n\<bar> < 2 ^ 53"
  then show "fl_round (real_of_int n) = real_of_int n"
    by (rule fl_round_int)
  have "\<bar>real_of_int n\<bar> < 2 ^ 53"
    using n by (metis of_int_abs of_int_less_numeral_power_cancel_iff)
  also have "(2 :: real) ^ 53 \<le> 2 ^ 1024"
    by (rule power_increasing) simp_all
  finally show "\<bar>real_of_int n\<bar> < 2 ^ 1024" .
qed


lemma literal_0_1_value: "literal_0_1 = 3602879701896397 / 36028797018963968"
proof -
  have "fl_round (1 / 10) = of_int 7205759403792794 * 2 powi (- 4 - 52)"
    by (rule fl_round_eval) (simp_all add: power_int_def power_one_over)
  then show ?thesis
    by (simp add: literal_0_1_def power_int_def power_one_over)
qed



lemma py_truediv_1_01: "py_truediv 1 literal_0_1 = Inr (Finite 10)"
proof -
  let ?x = "1 / (3602879701896397 / 36028797018963968) :: real"
  have "fl_round ?x = of_int 5629499534213120 * 2 powi (3 - 52)"
    by (rule fl_round_eval) (simp_all add: power_int_def power_one_over)
  then have "fl_round ?x = 10"
    by (simp add: power_int_def power_one_over)
  then show ?thesis
    using int_to_float_small [of 1]
    by (simp add: py_truediv_def float_div_def to_float_def literal_0_1_value)
qed

text \<open>
  With \<open>duration_s = 1\<close> and \<open>dt_s = 0.1\<close> line 50 gives 10 steps, although the double
  \<open>0.1\<close> is larger than a tenth.
\<close>

lemma steps_of_tenth:
  "steps_of (default_NodeConfig\<lparr>duration_s := 1, dt_s := literal_0_1\<rparr>) = Inr 10"
proof -
  have "py_truediv (duration_s (default_NodeConfig\<lparr>duration_s := 1, dt_s := literal_0_1\<rparr>))
      (dt_s (default_NodeConfig\<lparr>duration_s := 1, dt_s := literal_0_1\<rparr>)) = Inr (Finite 10)"
    using py_truediv_1_01 by simp
  then show ?thesis
    unfolding steps_of_def by (simp add: py_int_def)
qed




text \<open>
  C2, as stated: a configuration with \<open>duration_s \<le> 0\<close> or \<open>dt_s \<le> 0\<close> makes \<^verbatim>\<open>simulate\<close>
  fail before the loop. It does not: \<^verbatim>\<open>simulate\<close> has no check of the configuration.
  With \<open>duration_s = 0\<close> it runs the tick at index 0 and returns a result; with
  \<open>dt_s = - 1\<close> and \<open>duration_s = 5\<close> it runs no tick and returns a result of empty
  sequences.
\<close>

theorem fail_fast_counterexample:
  "map_sum id (t_list \<circ> fst)
     (simulate reset step still_seeded (new_FixedSamplingPolicy 5)
        (default_NodeConfig\<lparr>duration_s := 0\<rparr>) default_EnergyModel still_rng)
   = Inr [0]
  \<and> map_sum id (t_list \<circ> fst)
     (simulate reset step still_seeded (new_FixedSamplingPolicy 5)
        (default_NodeConfig\<lparr>duration_s := 5, dt_s := - 1\<rparr>) default_EnergyModel still_rng)
   = Inr []"
proof -
  have a: "steps_of (default_NodeConfig\<lparr>duration_s := 0\<rparr>) = Inr 0"
    by (rule steps_of_exact) (simp_all add: default_NodeConfig_def)
  have b: "steps_of (default_NodeConfig\<lparr>duration_s := 5, dt_s := - 1\<rparr>) = Inr (- 5)"
    by (rule steps_of_exact) (simp_all add: default_NodeConfig_def)
  show ?thesis
    unfolding simulate_def Let_def a b
    by (simp add: run_simps new_FixedSamplingPolicy_def e_tx_def e_sense_def e_cpu_def
        e_idle_awake_def e_sleep_def)
qed

text \<open>
  C2, amended: a configuration with \<open>dt_s = 0\<close> makes \<^verbatim>\<open>simulate\<close> fail before the loop
  starts. Line 50 raises \<^verbatim>\<open>ZeroDivisionError\<close>, or \<^verbatim>\<open>OverflowError\<close> when \<open>duration_s\<close> is
  too large for a float (it is \<^verbatim>\<open>ZeroDivisionError\<close> whenever \<open>|duration_s| < 2^53\<close>), for a
  policy of any class, also one whose \<^verbatim>\<open>step\<close> would raise at the first tick: no tick is
  run and no result is produced.
\<close>

theorem zero_dt_fails_fast:
  "dt_s cfg = 0 \<longrightarrow>
     (simulate rst stp seeded policy cfg energy g = Inl ZeroDivisionError
        \<or> simulate rst stp seeded policy cfg energy g = Inl OverflowError)
     \<and> (\<bar>duration_s cfg\<bar> < 2 ^ 53 \<longrightarrow>
          simulate rst stp seeded policy cfg energy g = Inl ZeroDivisionError)"
proof (intro impI conjI)
  assume z: "dt_s cfg = 0"
  show "simulate rst stp seeded policy cfg energy g = Inl ZeroDivisionError
        \<or> simulate rst stp seeded policy cfg energy g = Inl OverflowError"
    using steps_of_zero_dt(1) [OF z] simulate_no_steps [of cfg] by metis
  show "simulate rst stp seeded policy cfg energy g = Inl ZeroDivisionError"
    if "\<bar>duration_s cfg\<bar> < 2 ^ 53"
    using steps_of_zero_dt(2) [OF z that] by (rule simulate_no_steps)
qed

theorem zero_dt_fails_fast_witness:
  "dt_s (default_NodeConfig\<lparr>dt_s := 0\<rparr>) = 0
   \<and> \<bar>duration_s (default_NodeConfig\<lparr>dt_s := 0\<rparr>)\<bar> < 2 ^ 53
   \<and> simulate reset step still_seeded BasePolicy (default_NodeConfig\<lparr>dt_s := 0\<rparr>)
         default_EnergyModel still_rng = Inl ZeroDivisionError
   \<and> simulate reset step still_seeded (new_FixedSamplingPolicy 5)
         (default_NodeConfig\<lparr>dt_s := 0\<rparr>) default_EnergyModel still_rng
       = Inl ZeroDivisionError"
proof -
  have h: "dt_s (default_NodeConfig\<lparr>dt_s := 0\<rparr>) = 0"
    "\<bar>duration_s (default_NodeConfig\<lparr>dt_s := 0\<rparr>)\<bar> < 2 ^ 53"
    by (simp_all add: default_NodeConfig_def)
  show ?thesis
    using zero_dt_fails_fast [of "default_NodeConfig\<lparr>dt_s := 0\<rparr>" reset step still_seeded
        BasePolicy default_EnergyModel still_rng]
      zero_dt_fails_fast [of "default_NodeConfig\<lparr>dt_s := 0\<rparr>" reset step still_seeded
        "new_FixedSamplingPolicy 5" default_EnergyModel still_rng]
      h
    by blast
qed

subsection \<open>Energy\<close>

lemma e_tx_nonneg:
  assumes "energy_nonneg energy" "0 \<le> payload" "e_tx energy payload = Inr c"
  shows "0 \<le> c"
proof -
  from assms(3) obtain b where b: "int_to_float (payload * 8) = Inr b"
    by (auto simp: e_tx_def Let_def split: sum.splits)
  have "0 \<le> b"
    using int_to_float_nonneg [OF _ b] assms(2) by simp
  then show ?thesis
    using assms(1,3)
    by (auto simp: e_tx_def b energy_nonneg_def Let_def split: if_splits)
qed

lemma accrue_step_energy:
  assumes "energy_nonneg energy" "0 \<le> dt_s cfg"
    "0 \<le> e_sleep_v st" "0 \<le> e_idle_v st"
  shows "0 \<le> e_sleep_v (accrue_step cfg energy out st)"
    "0 \<le> e_idle_v (accrue_step cfg energy out st)"
    "e_sense_v (accrue_step cfg energy out st) = e_sense_v st"
    "e_cpu_v (accrue_step cfg energy out st) = e_cpu_v st"
    "e_tx_v (accrue_step cfg energy out st) = e_tx_v st"
  using assms
  by (simp_all add: accrue_step_def e_sleep_def e_idle_awake_def energy_nonneg_def)

lemma sense_step_energy:
  assumes "energy_nonneg energy" "sense_step cfg energy out gt st = (mval, st1)"
    "0 \<le> e_sense_v st" "0 \<le> e_cpu_v st"
  shows "0 \<le> e_sense_v st1" "0 \<le> e_cpu_v st1"
    "e_sleep_v st1 = e_sleep_v st" "e_idle_v st1 = e_idle_v st" "e_tx_v st1 = e_tx_v st"
  using assms
  by (auto simp: sense_step_def gauss_def Let_def e_sense_def e_cpu_def energy_nonneg_def
      split: if_splits)

lemma transmit_step_energy:
  assumes "energy_nonneg energy" "0 \<le> payload_bytes cfg"
    "transmit_step cfg energy out now_s st = Inr (did_tx, st2)" "0 \<le> e_tx_v st"
  shows "0 \<le> e_tx_v st2"
    "e_sleep_v st2 = e_sleep_v st" "e_idle_v st2 = e_idle_v st"
    "e_sense_v st2 = e_sense_v st" "e_cpu_v st2 = e_cpu_v st"
  using assms
  by (auto simp: transmit_step_def split: option.splits if_splits sum.splits
      dest: e_tx_nonneg)

lemma tick_energy:
  assumes "energy_nonneg energy" "0 \<le> dt_s cfg" "0 \<le> payload_bytes cfg"
    "tick stp cfg energy i st = Inr st'"
    "0 \<le> e_sleep_v st \<and> 0 \<le> e_idle_v st \<and> 0 \<le> e_sense_v st \<and> 0 \<le> e_cpu_v st
     \<and> 0 \<le> e_tx_v st"
  shows "0 \<le> e_sleep_v st' \<and> 0 \<le> e_idle_v st' \<and> 0 \<le> e_sense_v st' \<and> 0 \<le> e_cpu_v st'
     \<and> 0 \<le> e_tx_v st'"
proof -
  from assms(4) obtain out policy' mval st1 did_tx st2 where
    m: "sense_step cfg energy out (ground_truth (now_s_at cfg i) cfg)
       (accrue_step cfg energy out
          (st\<lparr>policy_v := policy', t_v := t_v st @ [now_s_at cfg i],
             truth_v := truth_v st @ [ground_truth (now_s_at cfg i) cfg]\<rparr>)) = (mval, st1)"
    and t: "transmit_step cfg energy out (now_s_at cfg i) st1 = Inr (did_tx, st2)"
    and e: "st' = st2\<lparr>measured_v := measured_v st2 @ [mval], sent_v := sent_v st2 @ [did_tx],
               reconstructed_v := reconstructed_v st2 @ [recon_val st2]\<rparr>"
    by (rule tick_InrE)
  let ?st0 = "st\<lparr>policy_v := policy', t_v := t_v st @ [now_s_at cfg i],
             truth_v := truth_v st @ [ground_truth (now_s_at cfg i) cfg]\<rparr>"
  have a: "0 \<le> e_sleep_v (accrue_step cfg energy out ?st0)"
    "0 \<le> e_idle_v (accrue_step cfg energy out ?st0)"
    "0 \<le> e_sense_v (accrue_step cfg energy out ?st0)"
    "0 \<le> e_cpu_v (accrue_step cfg energy out ?st0)"
    "0 \<le> e_tx_v (accrue_step cfg energy out ?st0)"
    using accrue_step_energy [OF assms(1,2), of ?st0 out] assms(5) by simp_all
  have b: "0 \<le> e_sleep_v st1" "0 \<le> e_idle_v st1" "0 \<le> e_sense_v st1" "0 \<le> e_cpu_v st1"
    "0 \<le> e_tx_v st1"
    using sense_step_energy [OF assms(1) m a(3,4)] a by simp_all
  have c: "0 \<le> e_sleep_v st2" "0 \<le> e_idle_v st2" "0 \<le> e_sense_v st2" "0 \<le> e_cpu_v st2"
    "0 \<le> e_tx_v st2"
    using transmit_step_energy [OF assms(1,3) t b(5)] b by simp_all
  show ?thesis
    using c by (simp add: e)
qed

lemma loop_energy:
  assumes "energy_nonneg energy" "0 \<le> dt_s cfg" "0 \<le> payload_bytes cfg"
    "loop stp cfg energy xs st = Inr st'"
    "0 \<le> e_sleep_v st \<and> 0 \<le> e_idle_v st \<and> 0 \<le> e_sense_v st \<and> 0 \<le> e_cpu_v st
     \<and> 0 \<le> e_tx_v st"
  shows "0 \<le> e_sleep_v st' \<and> 0 \<le> e_idle_v st' \<and> 0 \<le> e_sense_v st' \<and> 0 \<le> e_cpu_v st'
     \<and> 0 \<le> e_tx_v st'"
  using assms(4,5)
proof (induction xs arbitrary: st)
  case Nil
  then show ?case by simp
next
  case (Cons i xs)
  from Cons.prems(1) obtain st1 where t: "tick stp cfg energy i st = Inr st1"
    and l: "loop stp cfg energy xs st1 = Inr st'"
    by (auto split: sum.splits)
  show ?case
    by (rule Cons.IH [OF l tick_energy [OF assms(1-3) t Cons.prems(2)]])
qed

text \<open>
  C4, as stated: with a non-negative energy model every energy of the result is
  non-negative. It fails when the configuration, which \<^verbatim>\<open>simulate\<close> does not check, has a
  negative payload size (the transmission energy of the run below is \<open>- 3.6\<close>) or a
  negative time step (the idle energy of the second run is \<open>- 60\<close>).
\<close>

theorem energy_nonneg_counterexample:
  "energy_nonneg default_EnergyModel
   \<and> map_sum id (energy_breakdown_mj \<circ> fst)
     (simulate reset step still_seeded (new_FixedSamplingPolicy 5)
        (default_NodeConfig\<lparr>duration_s := 1, payload_bytes := - 1000\<rparr>) default_EnergyModel
        still_rng)
   = Inr [(''sleep'', 0), (''idle_awake'', 30), (''sensing'', 1 / 4), (''cpu'', 7 / 50),
          (''tx'', - (18 / 5))]
   \<and> map_sum id (energy_breakdown_mj \<circ> fst)
     (simulate reset step still_seeded (new_FixedSamplingPolicy 5)
        (default_NodeConfig\<lparr>duration_s := - 2, dt_s := - 2\<rparr>) default_EnergyModel
        still_rng)
   = Inr [(''sleep'', 0), (''idle_awake'', - 60), (''sensing'', 1 / 4), (''cpu'', 7 / 50),
          (''tx'', 1038 / 3125)]"
proof -
  have a: "steps_of (default_NodeConfig\<lparr>duration_s := 1, payload_bytes := - 1000\<rparr>) = Inr 1"
    by (rule steps_of_exact) (simp_all add: default_NodeConfig_def)
  have b: "steps_of (default_NodeConfig\<lparr>duration_s := - 2, dt_s := - 2\<rparr>) = Inr 1"
    by (rule steps_of_exact) (simp_all add: default_NodeConfig_def)
  show ?thesis
    unfolding simulate_def Let_def a b
    by (simp add: run_simps new_FixedSamplingPolicy_def e_tx_def
        e_sense_def e_cpu_def e_idle_awake_def e_sleep_def energy_nonneg_def)
qed

text \<open>
  C4, amended: in every result that \<^verbatim>\<open>simulate\<close> returns, \<open>energy_total_mj\<close> is the sum of
  the five values of \<open>energy_breakdown_mj\<close> (sleep, idle_awake, sensing, cpu, tx); with a
  non-negative energy model, a time step \<open>dt_s \<ge> 0\<close> and a payload size
  \<open>payload_bytes \<ge> 0\<close>, the total and the five values are non-negative.
\<close>

theorem energy_totals:
  "simulate rst stp seeded policy cfg energy g = Inr (r, p', g') \<longrightarrow>
     map fst (energy_breakdown_mj r) = [''sleep'', ''idle_awake'', ''sensing'', ''cpu'', ''tx'']
     \<and> energy_total_mj r = sum_list (map snd (energy_breakdown_mj r))
     \<and> (energy_nonneg energy \<and> 0 \<le> dt_s cfg \<and> 0 \<le> payload_bytes cfg \<longrightarrow>
          0 \<le> energy_total_mj r \<and> (\<forall>v \<in> set (map snd (energy_breakdown_mj r)). 0 \<le> v))"
proof (intro impI)
  assume run: "simulate rst stp seeded policy cfg energy g = Inr (r, p', g')"
  then obtain n st where l: "loop stp cfg energy [0 ..< nat (n + 1)]
      (init_locals rst seeded policy cfg g) = Inr st" and r: "r = result st"
    unfolding simulate_Inr_iff by blast
  have init: "0 \<le> e_sleep_v (init_locals rst seeded policy cfg g)
      \<and> 0 \<le> e_idle_v (init_locals rst seeded policy cfg g)
      \<and> 0 \<le> e_sense_v (init_locals rst seeded policy cfg g)
      \<and> 0 \<le> e_cpu_v (init_locals rst seeded policy cfg g)
      \<and> 0 \<le> e_tx_v (init_locals rst seeded policy cfg g)"
    by (simp add: init_locals_def)
  have sum: "map fst (energy_breakdown_mj r)
        = [''sleep'', ''idle_awake'', ''sensing'', ''cpu'', ''tx'']"
    "energy_total_mj r = sum_list (map snd (energy_breakdown_mj r))"
    by (simp_all add: r result_def)
  have "0 \<le> energy_total_mj r \<and> (\<forall>v \<in> set (map snd (energy_breakdown_mj r)). 0 \<le> v)"
    if "energy_nonneg energy \<and> 0 \<le> dt_s cfg \<and> 0 \<le> payload_bytes cfg"
    using loop_energy [OF _ _ _ l init] that by (simp add: r result_def)
  with sum show "map fst (energy_breakdown_mj r)
        = [''sleep'', ''idle_awake'', ''sensing'', ''cpu'', ''tx'']
     \<and> energy_total_mj r = sum_list (map snd (energy_breakdown_mj r))
     \<and> (energy_nonneg energy \<and> 0 \<le> dt_s cfg \<and> 0 \<le> payload_bytes cfg \<longrightarrow>
          0 \<le> energy_total_mj r \<and> (\<forall>v \<in> set (map snd (energy_breakdown_mj r)). 0 \<le> v))"
    by blast
qed

theorem energy_totals_witness:
  "energy_nonneg default_EnergyModel
   \<and> 0 \<le> dt_s default_NodeConfig \<and> 0 \<le> payload_bytes default_NodeConfig
   \<and> (\<exists>r p' g'.
         simulate reset step still_seeded (new_AdaptiveThresholdPolicy 2 (1 / 2) 30)
           default_NodeConfig default_EnergyModel still_rng = Inr (r, p', g')
         \<and> energy_total_mj r = sum_list (map snd (energy_breakdown_mj r))
         \<and> 0 \<le> energy_total_mj r
         \<and> (\<forall>v \<in> set (map snd (energy_breakdown_mj r)). 0 \<le> v))"
proof -
  have h: "energy_nonneg default_EnergyModel" "0 \<le> dt_s default_NodeConfig"
    "0 \<le> payload_bytes default_NodeConfig"
    by (simp_all add: energy_nonneg_def default_EnergyModel_def default_NodeConfig_def)
  have "usable (new_AdaptiveThresholdPolicy 2 (1 / 2) 30)"
    by (simp add: new_AdaptiveThresholdPolicy_def)
  moreover have "steps_of default_NodeConfig = Inr 600"
    by (rule steps_of_exact) (simp_all add: default_NodeConfig_def)
  moreover have "e_tx default_EnergyModel (payload_bytes default_NodeConfig)
      = Inr (1038 / 3125)"
    by (simp add: e_tx_def default_EnergyModel_def default_NodeConfig_def int_to_float_small)
  ultimately obtain r p' g' where run:
    "simulate reset step still_seeded (new_AdaptiveThresholdPolicy 2 (1 / 2) 30)
       default_NodeConfig default_EnergyModel still_rng = Inr (r, p', g')"
    using simulate_returns by blast
  show ?thesis
    using energy_totals [of reset step still_seeded "new_AdaptiveThresholdPolicy 2 (1 / 2) 30"
        default_NodeConfig default_EnergyModel still_rng r p' g'] run h
    by blast
qed

subsection \<open>Prefixes of a run\<close>

lemma loop_append_Inr:
  assumes "loop stp cfg energy (xs @ ys) st = Inr st'"
  obtains st1 where "loop stp cfg energy xs st = Inr st1" "loop stp cfg energy ys st1 = Inr st'"
  using assms by (auto simp: loop_append split: sum.splits)

lemma tick_rows:
  assumes "tick stp cfg energy i st = Inr st'"
  shows "\<exists>m. measured_v st' = measured_v st @ [m]" "\<exists>b. sent_v st' = sent_v st @ [b]"
  using assms
  by (auto elim!: tick_InrE simp: sense_step_lists transmit_step_lists)

lemma loop_rows:
  assumes "loop stp cfg energy xs st = Inr st'"
  shows "take (length (measured_v st)) (measured_v st') = measured_v st"
    "take (length (sent_v st)) (sent_v st') = sent_v st"
  using assms
proof (induction xs arbitrary: st)
  case Nil
  {
    case 1
    then show ?case by simp
  next
    case 2
    then show ?case by simp
  }
next
  case (Cons i xs)
  {
    case 1
    then obtain st1 where t: "tick stp cfg energy i st = Inr st1"
      and l: "loop stp cfg energy xs st1 = Inr st'"
      by (auto split: sum.splits)
    obtain m where m: "measured_v st1 = measured_v st @ [m]"
      using tick_rows(1) [OF t] by blast
    have "take (length (measured_v st)) (take (length (measured_v st1)) (measured_v st'))
        = take (length (measured_v st)) (measured_v st1)"
      using Cons.IH(1) [OF l] by simp
    then show ?case
      by (simp add: m min_def)
  next
    case 2
    then obtain st1 where t: "tick stp cfg energy i st = Inr st1"
      and l: "loop stp cfg energy xs st1 = Inr st'"
      by (auto split: sum.splits)
    obtain b where b: "sent_v st1 = sent_v st @ [b]"
      using tick_rows(2) [OF t] by blast
    have "take (length (sent_v st)) (take (length (sent_v st1)) (sent_v st'))
        = take (length (sent_v st)) (sent_v st1)"
      using Cons.IH(2) [OF l] by simp
    then show ?case
      by (simp add: b min_def)
  }
qed

text \<open>A run that returns has passed through every index below its length.\<close>

lemma simulate_prefix:
  assumes "simulate rst stp seeded policy cfg energy g = Inr (r, p', g')"
    "i \<le> length (t_list r)"
  obtains st r_st where "locals_before rst stp seeded policy cfg energy g i = Inr st"
    "measured_v st = take i (measured r)" "sent_v st = take i (sent r)"
    "loop stp cfg energy [i ..< length (t_list r)] st = Inr r_st" "r = result r_st"
    "p' = policy_v r_st" "g' = random_v r_st"
proof -
  obtain k fin where k: "steps_of cfg = Inr k"
    and l: "loop stp cfg energy [0 ..< nat (k + 1)] (init_locals rst seeded policy cfg g) = Inr fin"
    and r: "r = result fin" "p' = policy_v fin" "g' = random_v fin"
    using assms(1) unfolding simulate_Inr_iff by blast
  let ?n = "nat (k + 1)"
  have n: "length (t_list r) = ?n"
    using simulate_length [OF assms(1) k] .
  have "[0 ..< ?n] = [0 ..< i] @ [i ..< ?n]"
    using assms(2) n by (metis le_add_diff_inverse upt_add_eq_append zero_le)
  with l obtain st where a: "loop stp cfg energy [0 ..< i] (init_locals rst seeded policy cfg g) = Inr st"
    and b: "loop stp cfg energy [i ..< ?n] st = Inr fin"
    by (metis loop_append_Inr)
  have len: "length (measured_v st) = i" "length (sent_v st) = i"
    using loop_lengths(3,4) [OF a] by simp_all
  have "measured_v st = take i (measured r)" "sent_v st = take i (sent r)"
    using loop_rows [OF b] len by (simp_all add: r)
  then show ?thesis
    using that [of st fin] a b r n by (simp add: locals_before_def)
qed

subsection \<open>The last measurement\<close>

lemma last_present_snoc [simp]:
  "last_present (xs @ [x]) = (case x of Some y \<Rightarrow> Some y | None \<Rightarrow> last_present xs)"
  by (induction xs) (auto split: option.splits)

lemma last_present_in:
  "last_present xs = Some y \<Longrightarrow> \<exists>j < length xs. xs ! j = Some y"
proof (induction xs rule: rev_induct)
  case Nil
  then show ?case by simp
next
  case (snoc x xs)
  show ?case
  proof (cases x)
    case None
    with snoc obtain j where "j < length xs" "xs ! j = Some y"
      by auto
    then show ?thesis
      by (auto simp: nth_append intro!: exI [of _ j])
  next
    case (Some z)
    with snoc.prems have "z = y" by simp
    with Some show ?thesis
      by (auto intro!: exI [of _ "length xs"])
  qed
qed

lemma tick_last_measurement:
  assumes "tick stp cfg energy i st = Inr st'"
    "last_measurement st = last_present (measured_v st)"
  shows "last_measurement st' = last_present (measured_v st')"
  using assms
  by (auto elim!: tick_InrE simp: sense_step_lists transmit_step_lists
      sense_step_measurement split: option.splits)

lemma loop_last_measurement:
  assumes "loop stp cfg energy xs st = Inr st'"
    "last_measurement st = last_present (measured_v st)"
  shows "last_measurement st' = last_present (measured_v st')"
  using assms
proof (induction xs arbitrary: st)
  case Nil
  then show ?case by simp
next
  case (Cons i xs)
  from Cons.prems(1) obtain st1 where t: "tick stp cfg energy i st = Inr st1"
    and l: "loop stp cfg energy xs st1 = Inr st'"
    by (auto split: sum.splits)
  show ?case
    by (rule Cons.IH [OF l tick_last_measurement [OF t Cons.prems(2)]])
qed

lemma locals_before_last_measurement:
  assumes "locals_before rst stp seeded policy cfg energy g i = Inr st"
  shows "last_measurement st = last_present (measured_v st)"
  using assms unfolding locals_before_def
  by (rule loop_last_measurement) simp

subsection \<open>A policy that records its calls\<close>

text \<open>Recording does not change the run.\<close>

lemma forget_simps [simp]:
  "policy_v (forget st) = fst (policy_v st)"
  "last_measurement (forget st) = last_measurement st"
  "last_tx_s (forget st) = last_tx_s st"
  "t_v (forget st) = t_v st"
  "truth_v (forget st) = truth_v st"
  "measured_v (forget st) = measured_v st"
  "sent_v (forget st) = sent_v st"
  "reconstructed_v (forget st) = reconstructed_v st"
  "recon_val (forget st) = recon_val st"
  "random_v (forget st) = random_v st"
  by (simp_all add: forget_def)

lemma forget_begin:
  "forget (st\<lparr>policy_v := pl, t_v := ts, truth_v := gs\<rparr>)
     = (forget st)\<lparr>policy_v := fst pl, t_v := ts, truth_v := gs\<rparr>"
  by (simp add: forget_def)

lemma forget_end:
  "forget (st\<lparr>measured_v := ms, sent_v := bs, reconstructed_v := rs\<rparr>)
     = (forget st)\<lparr>measured_v := ms, sent_v := bs, reconstructed_v := rs\<rparr>"
  by (simp add: forget_def)

lemma accrue_step_forget:
  "forget (accrue_step cfg energy out st) = accrue_step cfg energy out (forget st)"
  by (simp add: forget_def accrue_step_def)

lemma sense_step_forget:
  "sense_step cfg energy out gt (forget st)
     = map_prod id forget (sense_step cfg energy out gt st)"
  by (simp add: forget_def sense_step_def gauss_def Let_def)

lemma transmit_step_forget:
  "transmit_step cfg energy out now_s (forget st)
     = map_sum id (map_prod id forget) (transmit_step cfg energy out now_s st)"
  by (simp add: forget_def transmit_step_def split: option.splits sum.splits)

lemma tick_forget:
  "tick stp cfg energy i (forget st)
     = map_sum id forget (tick (recording_step stp) cfg energy i st)"
proof (cases "stp (fst (policy_v st)) (now_s_at cfg i) (last_measurement st) (last_tx_s st)")
  case (Inl e)
  then show ?thesis
    by (simp add: tick_def recording_step_def Let_def)
next
  case (Inr a)
  obtain out p1 where a: "a = (out, p1)"
    by (cases a)
  let ?pl = "(p1, snd (policy_v st) @ [(now_s_at cfg i, last_measurement st, last_tx_s st)])"
  let ?st0 = "accrue_step cfg energy out
     (st\<lparr>policy_v := ?pl, t_v := t_v st @ [now_s_at cfg i],
        truth_v := truth_v st @ [ground_truth (now_s_at cfg i) cfg]\<rparr>)"
  obtain mval st1 where m: "sense_step cfg energy out (ground_truth (now_s_at cfg i) cfg) ?st0
      = (mval, st1)"
    by (cases "sense_step cfg energy out (ground_truth (now_s_at cfg i) cfg) ?st0") blast
  have m': "sense_step cfg energy out (ground_truth (now_s_at cfg i) cfg)
      (accrue_step cfg energy out
         ((forget st)\<lparr>policy_v := p1, t_v := t_v st @ [now_s_at cfg i],
            truth_v := truth_v st @ [ground_truth (now_s_at cfg i) cfg]\<rparr>))
      = (mval, forget st1)"
    using sense_step_forget [of cfg energy out "ground_truth (now_s_at cfg i) cfg" ?st0]
    by (simp add: m accrue_step_forget forget_begin)
  show ?thesis
  proof (cases "transmit_step cfg energy out (now_s_at cfg i) st1")
    case (Inl e)
    then show ?thesis
      using Inr a m m'
      by (simp add: tick_def recording_step_def Let_def transmit_step_forget)
  next
    case t: (Inr b)
    obtain did_tx st2 where b: "b = (did_tx, st2)"
      by (cases b)
    show ?thesis
      using Inr a m m' t b
      by (simp add: tick_def recording_step_def Let_def transmit_step_forget forget_end)
  qed
qed

lemma loop_forget:
  "loop stp cfg energy xs (forget st)
     = map_sum id forget (loop (recording_step stp) cfg energy xs st)"
proof (induction xs arbitrary: st)
  case Nil
  then show ?case by simp
next
  case (Cons i xs)
  show ?case
    by (cases "tick (recording_step stp) cfg energy i st") (simp_all add: tick_forget Cons.IH)
qed

lemma init_locals_forget:
  "forget (init_locals (recording_reset rst) seeded (policy, old) cfg g)
     = init_locals rst seeded policy cfg g"
  by (simp add: forget_def init_locals_def recording_reset_def)

lemma result_forget: "result (forget st) = result st"
  by (simp add: result_def forget_def)

lemma loop_recording:
  assumes "loop stp cfg energy xs (init_locals rst seeded policy cfg g) = Inr st"
  shows "\<exists>st'. loop (recording_step stp) cfg energy xs
             (init_locals (recording_reset rst) seeded (policy, old) cfg g) = Inr st'
           \<and> forget st' = st"
proof -
  let ?l = "loop (recording_step stp) cfg energy xs
      (init_locals (recording_reset rst) seeded (policy, old) cfg g)"
  have "map_sum id forget ?l = Inr st"
    using assms loop_forget [of stp cfg energy xs
        "init_locals (recording_reset rst) seeded (policy, old) cfg g"]
    by (simp add: init_locals_forget)
  then show ?thesis
    by (cases ?l) simp_all
qed

text \<open>What the list of calls holds when the loop reaches index \<open>k\<close>.\<close>

lemma tick_policy:
  assumes "tick stp cfg energy i st = Inr st'"
  shows "\<exists>out. stp (policy_v st) (now_s_at cfg i) (last_measurement st) (last_tx_s st)
      = Inr (out, policy_v st')"
  using assms
  by (auto elim!: tick_InrE simp: sense_step_lists transmit_step_lists)

lemma tick_recording_calls:
  assumes "tick (recording_step stp) cfg energy i st = Inr st'"
  shows "snd (policy_v st')
      = snd (policy_v st) @ [(now_s_at cfg i, last_measurement st, last_tx_s st)]"
proof -
  obtain out where "recording_step stp (policy_v st) (now_s_at cfg i) (last_measurement st)
      (last_tx_s st) = Inr (out, policy_v st')"
    using tick_policy [OF assms] by blast
  then have "\<exists>p1. policy_v st'
      = (p1, snd (policy_v st) @ [(now_s_at cfg i, last_measurement st, last_tx_s st)])"
    by (auto simp: recording_step_def split: sum.splits) metis
  then show ?thesis
    by auto
qed

lemma recording_calls:
  assumes "loop (recording_step stp) cfg energy [0 ..< k]
      (init_locals (recording_reset rst) seeded (policy, old) cfg g) = Inr st"
  shows "map fst (snd (policy_v st)) = t_v st
    \<and> map (\<lambda>c. fst (snd c)) (snd (policy_v st))
        = map (\<lambda>i. last_present (take i (measured_v st))) [0 ..< k]"
  using assms
proof (induction k arbitrary: st)
  case 0
  then show ?case
    by (auto simp: init_locals_def recording_reset_def)
next
  case (Suc k)
  let ?init = "init_locals (recording_reset rst) seeded (policy, old) cfg g"
  from Suc.prems obtain st1 where l: "loop (recording_step stp) cfg energy [0 ..< k] ?init = Inr st1"
    and t: "tick (recording_step stp) cfg energy k st1 = Inr st"
    by (auto simp: loop_snoc split: sum.splits)
  note ih = Suc.IH [OF l]
  have lm: "last_measurement st1 = last_present (measured_v st1)"
    using l by (rule loop_last_measurement) simp
  have len: "length (measured_v st1) = k"
    using loop_lengths(3) [OF l] by simp
  obtain m where m: "measured_v st = measured_v st1 @ [m]"
    using tick_rows(1) [OF t] by blast
  have c: "snd (policy_v st)
      = snd (policy_v st1) @ [(now_s_at cfg k, last_present (measured_v st1), last_tx_s st1)]"
    using tick_recording_calls [OF t] lm by simp
  have "map fst (snd (policy_v st)) = t_v st"
    using ih tick_lists(1) [OF t] by (simp add: c)
  moreover have "map (\<lambda>c. fst (snd c)) (snd (policy_v st))
      = map (\<lambda>i. last_present (take i (measured_v st))) [0 ..< Suc k]"
  proof -
    have "map (\<lambda>i. last_present (take i (measured_v st))) [0 ..< k]
        = map (\<lambda>i. last_present (take i (measured_v st1))) [0 ..< k]"
      by (rule map_cong) (simp_all add: m len)
    moreover have "last_present (take k (measured_v st)) = last_present (measured_v st1)"
      by (simp add: m len)
    ultimately have "map (\<lambda>i. last_present (take i (measured_v st))) [0 ..< Suc k]
        = map (\<lambda>i. last_present (take i (measured_v st1))) [0 ..< k]
          @ [last_present (measured_v st1)]"
      by simp
    then show ?thesis
      unfolding c using ih by simp
  qed
  ultimately show ?case
    by blast
qed

text \<open>
  C10. Let the policy of a run that returns (\<open>dt_s\<close> being a float) record the arguments
  of every call of \<^verbatim>\<open>step\<close>. The run is the same, \<^verbatim>\<open>step\<close> has been called once at each of
  the \<open>steps + 1\<close> ticks, and the call at index \<open>i\<close> has received the time of tick \<open>i\<close> and,
  as \<open>last_measurement\<close>, the last value present in \<open>measured[0..i-1]\<close>: the measurement of
  the most recent tick strictly before \<open>i\<close> that sampled, or \<open>None\<close>. The entry
  \<open>measured[i]\<close> of the current tick is not among them.
\<close>

theorem step_sees_earlier_measurement:
  "is_float (dt_s cfg) \<and> simulate rst stp seeded policy cfg energy g = Inr (r, p', g') \<longrightarrow>
     (\<exists>calls n.
        simulate (recording_reset rst) (recording_step stp) seeded (policy, old) cfg energy g
          = Inr (r, (p', calls), g')
        \<and> steps_of cfg = Inr n \<and> length calls = nat (n + 1)
        \<and> (\<forall>i < length calls.
              fst (calls ! i) = t_list r ! i
              \<and> fst (snd (calls ! i)) = last_present (take i (measured r))))"
proof
  assume "is_float (dt_s cfg) \<and> simulate rst stp seeded policy cfg energy g = Inr (r, p', g')"
  then have run: "simulate rst stp seeded policy cfg energy g = Inr (r, p', g')"
    by simp
  then obtain n st where n: "steps_of cfg = Inr n"
    and l: "loop stp cfg energy [0 ..< nat (n + 1)] (init_locals rst seeded policy cfg g) = Inr st"
    and r: "r = result st" "p' = policy_v st" "g' = random_v st"
    unfolding simulate_Inr_iff by blast
  let ?init = "init_locals (recording_reset rst) seeded (policy, old) cfg g"
  obtain st' where l': "loop (recording_step stp) cfg energy [0 ..< nat (n + 1)] ?init = Inr st'"
    and f: "forget st' = st"
    using loop_recording [OF l] by blast
  let ?calls = "snd (policy_v st')"
  have r': "r = result st'" "p' = fst (policy_v st')" "g' = random_v st'"
    using r f result_forget [of st'] forget_simps(1,10) [of st'] by simp_all
  have sim: "simulate (recording_reset rst) (recording_step stp) seeded (policy, old) cfg energy g
      = Inr (r, (p', ?calls), g')"
    unfolding simulate_Inr_iff using n l' r' by auto
  have t: "t_list r = t_v st'" and m: "measured r = measured_v st'"
    by (simp_all add: r'(1) result_def)
  note c = recording_calls [OF l']
  have len: "length ?calls = nat (n + 1)"
    using arg_cong [OF conjunct2 [OF c], of length] by simp
  have "fst (?calls ! i) = t_list r ! i
      \<and> fst (snd (?calls ! i)) = last_present (take i (measured r))" if "i < length ?calls" for i
  proof
    show "fst (?calls ! i) = t_list r ! i"
      using arg_cong [OF conjunct1 [OF c], of "\<lambda>xs. xs ! i"] that by (simp add: t)
    show "fst (snd (?calls ! i)) = last_present (take i (measured r))"
      using arg_cong [OF conjunct2 [OF c], of "\<lambda>xs. xs ! i"] that len by (simp add: m)
  qed
  with sim n len show "\<exists>calls n.
        simulate (recording_reset rst) (recording_step stp) seeded (policy, old) cfg energy g
          = Inr (r, (p', calls), g')
        \<and> steps_of cfg = Inr n \<and> length calls = nat (n + 1)
        \<and> (\<forall>i < length calls.
              fst (calls ! i) = t_list r ! i
              \<and> fst (snd (calls ! i)) = last_present (take i (measured r)))"
    by blast
qed

theorem step_sees_earlier_measurement_witness:
  "\<exists>r p' g' calls.
     is_float (dt_s (default_NodeConfig\<lparr>duration_s := 7\<rparr>))
     \<and> simulate reset step still_seeded (new_FixedSamplingPolicy 5)
       (default_NodeConfig\<lparr>duration_s := 7\<rparr>) default_EnergyModel still_rng = Inr (r, p', g')
     \<and> simulate (recording_reset reset) (recording_step step) still_seeded
         (new_FixedSamplingPolicy 5, []) (default_NodeConfig\<lparr>duration_s := 7\<rparr>)
         default_EnergyModel still_rng = Inr (r, (p', calls), g')
     \<and> length calls = 8
     \<and> (\<forall>i < length calls.
           fst (calls ! i) = t_list r ! i
           \<and> fst (snd (calls ! i)) = last_present (take i (measured r)))"
proof -
  let ?cfg = "default_NodeConfig\<lparr>duration_s := 7\<rparr>"
  have u: "usable (new_FixedSamplingPolicy 5)"
    by (simp add: new_FixedSamplingPolicy_def)
  have s: "steps_of ?cfg = Inr 7"
    by (rule steps_of_exact) (simp_all add: default_NodeConfig_def)
  have e: "e_tx default_EnergyModel (payload_bytes ?cfg) = Inr (1038 / 3125)"
    by (simp add: e_tx_def default_EnergyModel_def default_NodeConfig_def int_to_float_small)
  have f: "is_float (dt_s ?cfg)"
    using is_float_int [of 1] by (simp add: default_NodeConfig_def)
  obtain r p' g' where run:
    "simulate reset step still_seeded (new_FixedSamplingPolicy 5) ?cfg default_EnergyModel
       still_rng = Inr (r, p', g')"
    using simulate_returns [OF u s e] by blast
  obtain calls n where c:
    "simulate (recording_reset reset) (recording_step step) still_seeded
       (new_FixedSamplingPolicy 5, []) ?cfg default_EnergyModel still_rng
       = Inr (r, (p', calls), g')"
    "steps_of ?cfg = Inr n" "length calls = nat (n + 1)"
    "\<forall>i < length calls.
       fst (calls ! i) = t_list r ! i
       \<and> fst (snd (calls ! i)) = last_present (take i (measured r))"
    using step_sees_earlier_measurement [of ?cfg reset step still_seeded
        "new_FixedSamplingPolicy 5" default_EnergyModel still_rng r p' g' "[]"] run f
    by blast
  have "length calls = 8"
    using c(2,3) unfolding s by simp
  then show ?thesis
    using f run c(1,4) by blast
qed

subsection \<open>Transmissions and measurements\<close>

lemma simulate_prefix_ex:
  assumes "simulate rst stp seeded policy cfg energy g = Inr (r, p', g')"
    "i \<le> length (t_list r)"
  shows "\<exists>st. locals_before rst stp seeded policy cfg energy g i = Inr st
    \<and> measured_v st = take i (measured r) \<and> sent_v st = take i (sent r)"
proof -
  obtain st r_st where "locals_before rst stp seeded policy cfg energy g i = Inr st"
    "measured_v st = take i (measured r)" "sent_v st = take i (sent r)"
    "loop stp cfg energy [i ..< length (t_list r)] st = Inr r_st"
    by (rule simulate_prefix [OF assms])
  then show ?thesis
    by blast
qed

lemma tick_sent_last_measurement:
  assumes "tick stp cfg energy i st = Inr st'" "sent_v st' = sent_v st @ [True]"
  shows "last_measurement st' \<noteq> None"
proof -
  from assms(1) obtain out policy' mval st1 did_tx st2 where
    m: "sense_step cfg energy out (ground_truth (now_s_at cfg i) cfg)
       (accrue_step cfg energy out
          (st\<lparr>policy_v := policy', t_v := t_v st @ [now_s_at cfg i],
             truth_v := truth_v st @ [ground_truth (now_s_at cfg i) cfg]\<rparr>)) = (mval, st1)"
    and t: "transmit_step cfg energy out (now_s_at cfg i) st1 = Inr (did_tx, st2)"
    and e: "st' = st2\<lparr>measured_v := measured_v st2 @ [mval], sent_v := sent_v st2 @ [did_tx],
               reconstructed_v := reconstructed_v st2 @ [recon_val st2]\<rparr>"
    by (rule tick_InrE)
  have "sent_v st2 = sent_v st"
    using transmit_step_lists(4) [OF t] sense_step_lists(4) [OF m] by simp
  with assms(2) have "did_tx"
    by (simp add: e)
  then have "last_measurement st1 \<noteq> None"
    using transmit_step_sent [OF t] by simp
  then show ?thesis
    using transmit_step_lists(7) [OF t] by (simp add: e)
qed

text \<open>
  C6. In a run that returns, for a policy of any class, \<open>sent[i]\<close> implies that some
  \<open>measured[j]\<close> with \<open>j \<le> i\<close> is present. It does not imply that \<open>measured[i]\<close> is
  present: in the run of the witness, whose policy asks for a transmission at a tick
  without a sample, \<open>sent[1]\<close> holds, \<open>measured[1]\<close> is absent, and the value sent is the
  measurement of tick 0.
\<close>

theorem sent_needs_measurement:
  "simulate rst stp seeded policy cfg energy g = Inr (r, p', g') \<and> i < length (sent r)
     \<and> sent r ! i \<longrightarrow> (\<exists>j \<le> i. \<exists>m. measured r ! j = Some m)"
proof (intro impI, elim conjE)
  assume run: "simulate rst stp seeded policy cfg energy g = Inr (r, p', g')"
    and i: "i < length (sent r)" and s: "sent r ! i"
  have len: "length (sent r) = length (t_list r)" "length (measured r) = length (t_list r)"
    using simulate_Inr_lengths [OF run] by simp_all
  from i len have le: "i \<le> length (t_list r)" "Suc i \<le> length (t_list r)"
    by simp_all
  obtain st where
    a: "locals_before rst stp seeded policy cfg energy g i = Inr st" "sent_v st = take i (sent r)"
    using simulate_prefix_ex [OF run le(1)] by blast
  obtain st' where
    b: "locals_before rst stp seeded policy cfg energy g (Suc i) = Inr st'"
      "measured_v st' = take (Suc i) (measured r)" "sent_v st' = take (Suc i) (sent r)"
    using simulate_prefix_ex [OF run le(2)] by blast
  have t: "tick stp cfg energy i st = Inr st'"
    using a(1) b(1) by (simp add: locals_before_Suc)
  have "sent_v st' = sent_v st @ [True]"
    using i s by (simp add: a(2) b(3) take_Suc_conv_app_nth)
  then have ne: "last_measurement st' \<noteq> None"
    by (rule tick_sent_last_measurement [OF t])
  have eq: "last_measurement st' = last_present (take (Suc i) (measured r))"
    using locals_before_last_measurement [OF b(1)] by (simp only: b(2))
  have "last_present (take (Suc i) (measured r)) \<noteq> None"
    using ne unfolding eq .
  then obtain y where y: "last_present (take (Suc i) (measured r)) = Some y"
    by (cases "last_present (take (Suc i) (measured r))") blast+
  obtain j where "j < length (take (Suc i) (measured r))"
    "take (Suc i) (measured r) ! j = Some y"
    using last_present_in [OF y] by blast
  then have "j \<le> i" "measured r ! j = Some y"
    by simp_all
  then show "\<exists>j \<le> i. \<exists>m. measured r ! j = Some m"
    by blast
qed

theorem sent_needs_measurement_witness:
  "\<exists>r p' g'.
     simulate resend_reset resend_step still_seeded ()
       (default_NodeConfig\<lparr>duration_s := 1\<rparr>) default_EnergyModel still_rng = Inr (r, p', g')
     \<and> 1 < length (sent r) \<and> sent r ! 1 \<and> measured r ! 1 = None
     \<and> (\<exists>j \<le> 1. \<exists>m. measured r ! j = Some m)"
proof -
  have "\<exists>r p' g'.
     simulate resend_reset resend_step still_seeded ()
       (default_NodeConfig\<lparr>duration_s := 1\<rparr>) default_EnergyModel still_rng = Inr (r, p', g')
     \<and> 1 < length (sent r) \<and> sent r ! 1 \<and> measured r ! 1 = None"
  proof -
    have a: "steps_of (default_NodeConfig\<lparr>duration_s := 1\<rparr>) = Inr 1"
      by (rule steps_of_exact) (simp_all add: default_NodeConfig_def)
    show ?thesis
      unfolding simulate_def Let_def a
      by (simp add: run_simps resend_reset_def resend_step_def e_tx_def)
  qed
  then obtain r p' g' where run:
    "simulate resend_reset resend_step still_seeded ()
       (default_NodeConfig\<lparr>duration_s := 1\<rparr>) default_EnergyModel still_rng = Inr (r, p', g')"
    and s: "1 < length (sent r)" "sent r ! 1" and m: "measured r ! 1 = None"
    by blast
  show ?thesis
    using sent_needs_measurement [of resend_reset resend_step still_seeded "()"
        "default_NodeConfig\<lparr>duration_s := 1\<rparr>" default_EnergyModel still_rng r p' g' 1]
      run s m
    by blast
qed

subsection \<open>Determinism\<close>

lemma step_reset:
  assumes "step p t last_m last_tx = Inr (out, p')"
  shows "reset p' = reset p"
  using assms
  by (cases p) (auto simp: py_mod_def Let_def split: if_splits option.splits)

lemma reset_reset [simp]: "reset (reset p) = reset p"
  by (cases p) simp_all

lemma tick_reset:
  assumes "tick step cfg energy i st = Inr st'"
  shows "reset (policy_v st') = reset (policy_v st)"
proof -
  from assms obtain out policy' mval st1 did_tx st2 where
    s: "step (policy_v st) (now_s_at cfg i) (last_measurement st) (last_tx_s st) = Inr (out, policy')"
    and m: "sense_step cfg energy out (ground_truth (now_s_at cfg i) cfg)
       (accrue_step cfg energy out
          (st\<lparr>policy_v := policy', t_v := t_v st @ [now_s_at cfg i],
             truth_v := truth_v st @ [ground_truth (now_s_at cfg i) cfg]\<rparr>)) = (mval, st1)"
    and t: "transmit_step cfg energy out (now_s_at cfg i) st1 = Inr (did_tx, st2)"
    and e: "st' = st2\<lparr>measured_v := measured_v st2 @ [mval], sent_v := sent_v st2 @ [did_tx],
               reconstructed_v := reconstructed_v st2 @ [recon_val st2]\<rparr>"
    by (rule tick_InrE)
  have "policy_v st' = policy'"
    using sense_step_lists(6) [OF m] transmit_step_lists(6) [OF t] by (simp add: e)
  then show ?thesis
    using step_reset [OF s] by simp
qed

lemma loop_reset:
  assumes "loop step cfg energy xs st = Inr st'"
  shows "reset (policy_v st') = reset (policy_v st)"
  using assms
proof (induction xs arbitrary: st)
  case Nil
  then show ?case by simp
next
  case (Cons i xs)
  then obtain st1 where t: "tick step cfg energy i st = Inr st1"
    and l: "loop step cfg energy xs st1 = Inr st'"
    by (auto split: sum.splits)
  show ?case
    using Cons.IH [OF l] tick_reset [OF t] by simp
qed

lemma simulate_reset_cong:
  assumes "reset q = reset p"
  shows "simulate reset step seeded q cfg energy g2 = simulate reset step seeded p cfg energy g"
  using assms by (simp add: simulate_def init_locals_def)

text \<open>
  C9. Two calls of \<^verbatim>\<open>simulate\<close> with the same configuration and energy model return the
  same result, policy and random state, whatever the state of module \<^verbatim>\<open>random\<close> before
  each call: when the second call reuses the policy instance as the first call left it
  (first part), and when it is given any instance with the same class and parameters,
  whatever that instance remembers from earlier runs (second part). The result holds
  all fields of \<^verbatim>\<open>SimResult\<close>.
\<close>

theorem simulate_deterministic:
  "(simulate reset step seeded policy cfg energy g = Inr (r, p', g') \<longrightarrow>
      simulate reset step seeded p' cfg energy g' = Inr (r, p', g'))
   \<and> (reset q = reset policy \<longrightarrow>
        simulate reset step seeded q cfg energy g2 = simulate reset step seeded policy cfg energy g)"
proof (intro conjI impI)
  assume run: "simulate reset step seeded policy cfg energy g = Inr (r, p', g')"
  then obtain n st where "loop step cfg energy [0 ..< nat (n + 1)]
      (init_locals reset seeded policy cfg g) = Inr st" "p' = policy_v st"
    unfolding simulate_Inr_iff by blast
  then have "reset p' = reset policy"
    using loop_reset by fastforce
  then show "simulate reset step seeded p' cfg energy g' = Inr (r, p', g')"
    using simulate_reset_cong [of p' policy seeded cfg energy g' g] run by simp
next
  assume "reset q = reset policy"
  then show "simulate reset step seeded q cfg energy g2
      = simulate reset step seeded policy cfg energy g"
    by (rule simulate_reset_cong)
qed


theorem simulate_deterministic_witness:
  "(\<exists>r p' g'.
      simulate reset step still_seeded (new_AdaptiveThresholdPolicy 2 (1 / 2) 30)
        (default_NodeConfig\<lparr>duration_s := 60\<rparr>) default_EnergyModel still_rng = Inr (r, p', g')
      \<and> simulate reset step still_seeded p'
          (default_NodeConfig\<lparr>duration_s := 60\<rparr>) default_EnergyModel g' = Inr (r, p', g'))
   \<and> reset (AdaptiveThresholdPolicy 2 (1 / 2) 30 (Some 7))
       = reset (new_AdaptiveThresholdPolicy 2 (1 / 2) 30)
   \<and> simulate reset step still_seeded (AdaptiveThresholdPolicy 2 (1 / 2) 30 (Some 7))
         (default_NodeConfig\<lparr>duration_s := 60\<rparr>) default_EnergyModel (\<lambda>k. real k)
       = simulate reset step still_seeded (new_AdaptiveThresholdPolicy 2 (1 / 2) 30)
           (default_NodeConfig\<lparr>duration_s := 60\<rparr>) default_EnergyModel still_rng"
proof -
  let ?cfg = "default_NodeConfig\<lparr>duration_s := 60\<rparr>"
  let ?pol = "new_AdaptiveThresholdPolicy 2 (1 / 2) 30"
  have "usable ?pol"
    by (simp add: new_AdaptiveThresholdPolicy_def)
  moreover have "steps_of ?cfg = Inr 60"
    by (rule steps_of_exact) (simp_all add: default_NodeConfig_def)
  moreover have "e_tx default_EnergyModel (payload_bytes ?cfg) = Inr (1038 / 3125)"
    by (simp add: e_tx_def default_EnergyModel_def default_NodeConfig_def int_to_float_small)
  ultimately obtain r p' g' where run:
    "simulate reset step still_seeded ?pol ?cfg default_EnergyModel still_rng = Inr (r, p', g')"
    using simulate_returns by blast
  have same: "reset (AdaptiveThresholdPolicy 2 (1 / 2) 30 (Some 7)) = reset ?pol"
    by (simp add: new_AdaptiveThresholdPolicy_def)
  show ?thesis
    using simulate_deterministic [of still_seeded ?pol ?cfg default_EnergyModel still_rng
        r p' g' "AdaptiveThresholdPolicy 2 (1 / 2) 30 (Some 7)" "\<lambda>k. real k"] run same
    by blast
qed

subsection \<open>The adaptive policy in the loop\<close>

lemma step_adaptive:
  assumes "b \<noteq> 0"
  shows "step (AdaptiveThresholdPolicy b th ms v) t last_m last_tx =
     Inr (\<lparr>awake = True, take_sample = (t mod b = 0),
           transmit = (t mod b = 0 \<and>
             (case last_m of None \<Rightarrow> False
              | Some lm \<Rightarrow> adaptive_transmit th ms v t lm last_tx))\<rparr>,
          AdaptiveThresholdPolicy b th ms
            (if t mod b = 0 \<and>
                (case last_m of None \<Rightarrow> False
                 | Some lm \<Rightarrow> adaptive_transmit th ms v t lm last_tx)
             then last_m else v))"
  using assms by (simp add: py_mod_def Let_def split: option.splits)

text \<open>A tick of a policy that is awake, in terms of the output of \<^verbatim>\<open>step\<close>.\<close>

lemma tick_awake:
  assumes "stp (policy_v st) (now_s_at cfg i) (last_measurement st) (last_tx_s st)
      = Inr (out, policy')" "awake out"
    "tick stp cfg energy i st = Inr st'"
  shows "policy_v st' = policy'"
    "sent_v st' = sent_v st @ [transmit out \<and> (take_sample out \<or> last_measurement st \<noteq> None)]"
    "samples_taken_v st' = samples_taken_v st + (if take_sample out then 1 else 0)"
    "packets_sent_v st' = packets_sent_v st
       + (if transmit out \<and> (take_sample out \<or> last_measurement st \<noteq> None) then 1 else 0)"
    "last_tx_s st' = (if transmit out \<and> (take_sample out \<or> last_measurement st \<noteq> None)
       then Some (now_s_at cfg i) else last_tx_s st)"
    "take_sample out \<Longrightarrow> last_measurement st' \<noteq> None"
    "\<not> take_sample out \<Longrightarrow> last_measurement st' = last_measurement st"
    "measured_v st' = measured_v st @ [if take_sample out then last_measurement st' else None]"
  using assms
  by (auto simp: tick_def Let_def accrue_step_def sense_step_def transmit_step_def gauss_def
      split: sum.splits option.splits if_splits)


lemma now_s_at_0 [simp]: "now_s_at cfg 0 = 0"
  by (simp add: now_s_at_def py_round_def)


lemma now_s_at_unit: "dt_s cfg = 1 \<Longrightarrow> now_s_at cfg i = int i"
  by (simp add: now_s_at_def py_round_def)




subsection \<open>The keep-alive schedule\<close>

lemma measurements_within_iff:
  "measurements_within d ms \<longleftrightarrow>
     (\<forall>a b. Some a \<in> set ms \<and> Some b \<in> set ms \<longrightarrow> \<bar>a - b\<bar> < d)"
  unfolding measurements_within_def list_all_iff
  by (auto split: option.splits)

lemma measurements_within_take:
  "measurements_within d ms \<Longrightarrow> measurements_within d (take i ms)"
  unfolding measurements_within_iff by (meson in_set_takeD)

lemma keepalive_due:
  fixes x :: int
  assumes "lt mod 10 = 2" "lt < x" "x \<le> lt + 10"
  shows "(x mod 2 = 0 \<and> 10 \<le> x - lt) = (x mod 10 = 2)"
  using assms by arith

lemma mod_10_int: "int i mod 10 = 2 \<longleftrightarrow> i mod 10 = 2"
  by (metis of_nat_mod of_nat_numeral of_nat_eq_iff)

lemma mod_2_int: "int i mod 2 = 0 \<longleftrightarrow> even i"
  by (metis even_iff_mod_2_eq_zero even_of_nat)

lemma keepalive_counts:
  fixes i :: nat
  shows "(i + 1) div 2 + (if even i then 1 else 0) = (Suc i + 1) div 2"
    and "(i + 7) div 10 + (if i mod 10 = 2 then 1 else 0) = (Suc i + 7) div 10"
proof -
  have two: "Suc (i + 1) mod 2 = 0 \<longleftrightarrow> even i"
    by arith
  show "(i + 1) div 2 + (if even i then 1 else 0) = (Suc i + 1) div 2"
    unfolding add_Suc div_Suc [of "i + 1" 2] two by simp
  have ten: "Suc (i + 7) mod 10 = 0 \<longleftrightarrow> i mod 10 = 2"
    by arith
  show "(i + 7) div 10 + (if i mod 10 = 2 then 1 else 0) = (Suc i + 7) div 10"
    unfolding add_Suc div_Suc [of "i + 7" 10] ten by simp
qed

lemma adaptive_transmit_quiet:
  assumes "\<bar>m - tv\<bar> < th"
  shows "adaptive_transmit th ms (Some tv) t m (Some lt) = (ms \<le> t - lt)"
  using assms by (simp add: adaptive_transmit_def)

lemma adaptive_transmit_first: "adaptive_transmit th ms None t m last_tx = True"
  by (simp add: adaptive_transmit_def)

lemma last_present_set:
  assumes "last_present xs = Some y"
  shows "Some y \<in> set xs"
proof -
  obtain j where "j < length xs" "xs ! j = Some y"
    using last_present_in [OF assms] by auto
  then show ?thesis
    by (metis nth_mem)
qed

lemma keepalive_decision:
  assumes inv: "keepalive_inv i st"
    and v: "policy_v st = AdaptiveThresholdPolicy 2 1000 10 v"
    and lm: "last_measurement st = last_present (measured_v st)"
    and B: "measurements_within 1000 (measured_v st)"
  shows "(int i mod 2 = 0 \<and>
          (case last_measurement st of None \<Rightarrow> False
           | Some m \<Rightarrow> adaptive_transmit 1000 10 v (int i) m (last_tx_s st)))
       = (i mod 10 = 2)"
proof (cases "i = 0")
  case True
  have l0: "last_measurement st = None \<longleftrightarrow> i = 0"
    using inv unfolding keepalive_inv_def by (elim conjE)
  with True show ?thesis by simp
next
  case False
  have l0: "last_measurement st = None \<longleftrightarrow> i = 0"
    using inv unfolding keepalive_inv_def by (elim conjE)
  with False obtain m where m: "last_measurement st = Some m"
    by auto
  have m_in: "Some m \<in> set (measured_v st)"
    using lm m last_present_set by metis
  have v_inv: "v = None \<longleftrightarrow> i \<le> 2" "v = None \<or> v \<in> set (measured_v st)"
    using inv v unfolding keepalive_inv_def by auto
  show ?thesis
  proof (cases "i \<le> 2")
    case True
    with False have "i = 1 \<or> i = 2"
      by arith
    then show ?thesis
      using True v_inv(1) by (auto simp: m adaptive_transmit_first)
  next
    case far: False
    then obtain tv where tv: "v = Some tv" "Some tv \<in> set (measured_v st)"
      using v_inv by auto
    have close: "\<bar>m - tv\<bar> < 1000"
      using B m_in tv(2) unfolding measurements_within_iff by simp
    from far obtain lt where lt: "last_tx_s st = Some lt" "lt mod 10 = 2" "lt < int i"
      "int i \<le> lt + 10"
      using inv unfolding keepalive_inv_def by auto
    show ?thesis
      unfolding m tv(1) lt(1) option.case adaptive_transmit_quiet [OF close]
      using keepalive_due [OF lt(2,3,4)] by (simp only: mod_10_int)
  qed
qed

lemma keepalive_step:
  assumes dt: "dt_s cfg = 1" and inv: "keepalive_inv i st"
    and lm: "last_measurement st = last_present (measured_v st)"
    and t: "tick step cfg energy i st = Inr st'"
    and B: "measurements_within 1000 (measured_v st)"
  shows "keepalive_inv (Suc i) st'"
proof -
  from inv obtain v where v: "policy_v st = AdaptiveThresholdPolicy 2 1000 10 v"
    and v_inv: "v = None \<longleftrightarrow> i \<le> 2" "v = None \<or> v \<in> set (measured_v st)"
    unfolding keepalive_inv_def by auto
  have l0: "last_measurement st = None \<longleftrightarrow> i = 0"
    and ltx: "if i \<le> 2 then last_tx_s st = None
      else (\<exists>lt. last_tx_s st = Some lt \<and> lt mod 10 = 2 \<and> lt < int i \<and> int i \<le> lt + 10)"
    and snt: "sent_v st = map (\<lambda>k. k mod 10 = 2) [0 ..< i]"
    and cnt: "samples_taken_v st = (i + 1) div 2" "packets_sent_v st = (i + 7) div 10"
    using inv unfolding keepalive_inv_def by simp_all
  have now: "now_s_at cfg i = int i"
    by (rule now_s_at_unit [OF dt])
  let ?W = "i mod 10 = 2"
  have W_even: "even i" if "?W"
    using that by arith
  have W_pos: "2 \<le> i" if "?W"
    using that by arith
  let ?out = "\<lparr>awake = True, take_sample = even i, transmit = ?W\<rparr>"
  have s: "step (policy_v st) (now_s_at cfg i) (last_measurement st) (last_tx_s st)
      = Inr (?out, AdaptiveThresholdPolicy 2 1000 10 (if ?W then last_measurement st else v))"
  proof -
    have "step (AdaptiveThresholdPolicy 2 1000 10 v) (int i) (last_measurement st) (last_tx_s st)
      = Inr (\<lparr>awake = True, take_sample = (int i mod 2 = 0),
              transmit = (int i mod 2 = 0 \<and>
                (case last_measurement st of None \<Rightarrow> False
                 | Some m \<Rightarrow> adaptive_transmit 1000 10 v (int i) m (last_tx_s st)))\<rparr>,
             AdaptiveThresholdPolicy 2 1000 10
               (if int i mod 2 = 0 \<and>
                   (case last_measurement st of None \<Rightarrow> False
                    | Some m \<Rightarrow> adaptive_transmit 1000 10 v (int i) m (last_tx_s st))
                then last_measurement st else v))"
      by (rule step_adaptive) simp
    note this [unfolded keepalive_decision [OF inv v lm B]]
    note this [unfolded mod_2_int]
    then show ?thesis
      unfolding v now .
  qed
  note f = tick_awake [where stp = step and st = st and cfg = cfg and i = i, OF s _ t,
      unfolded now, simplified]
  have tx: "(?W \<and> (even i \<or> last_measurement st \<noteq> None)) = ?W"
    using W_even by blast
  have grow: "set (measured_v st) \<subseteq> set (measured_v st')"
    using f(8) by auto
  have "\<exists>v'. policy_v st' = AdaptiveThresholdPolicy 2 1000 10 v'
      \<and> (v' = None \<longleftrightarrow> Suc i \<le> 2) \<and> (v' = None \<or> v' \<in> set (measured_v st'))"
  proof (cases ?W)
    case True
    have "last_measurement st \<noteq> None"
      using l0 W_pos [OF True] by simp
    moreover have "last_measurement st \<in> set (measured_v st)"
      using calculation lm last_present_set by (metis not_None_eq)
    ultimately show ?thesis
      using f(1) True W_pos [OF True] grow by auto
  next
    case False
    then have "i \<noteq> 2"
      by auto
    then show ?thesis
      using f(1) False v_inv grow by auto
  qed
  moreover have "last_measurement st' = None \<longleftrightarrow> Suc i = 0"
    using f(6,7) l0 by (cases "even i") auto
  moreover have "if Suc i \<le> 2 then last_tx_s st' = None
      else (\<exists>lt. last_tx_s st' = Some lt \<and> lt mod 10 = 2 \<and> lt < int (Suc i)
            \<and> int (Suc i) \<le> lt + 10)"
  proof (cases ?W)
    case True
    then have "last_tx_s st' = Some (int i)" "int i mod 10 = 2"
      using f(5) tx by (simp_all add: mod_10_int)
    then show ?thesis
      using W_pos [OF True] by simp
  next
    case False
    then have same: "last_tx_s st' = last_tx_s st" and "i \<noteq> 2"
      using f(5) by auto
    show ?thesis
    proof (cases "i \<le> 2")
      case True
      then show ?thesis
        using ltx same \<open>i \<noteq> 2\<close> by simp
    next
      case far: False
      then obtain lt where lt: "last_tx_s st = Some lt" "lt mod 10 = 2" "lt < int i"
        "int i \<le> lt + 10"
        using ltx by auto
      have "int i \<noteq> lt + 10"
        using False lt(2) mod_10_int [of i] by (metis mod_add_self2)
      then show ?thesis
        using far lt same by auto
    qed
  qed
  moreover have "sent_v st' = map (\<lambda>k. k mod 10 = 2) [0 ..< Suc i]"
    using f(2) snt tx by simp
  moreover have "samples_taken_v st' = (Suc i + 1) div 2"
    using f(3) cnt(1) keepalive_counts(1) [of i] by simp
  moreover have "packets_sent_v st' = (Suc i + 7) div 10"
    using f(4) cnt(2) keepalive_counts(2) [of i] tx by simp
  ultimately show ?thesis
    unfolding keepalive_inv_def by (intro conjI)
qed

lemma keepalive_locals:
  assumes dt: "dt_s cfg = 1"
    and run: "simulate reset step seeded (new_AdaptiveThresholdPolicy 2 1000 10) cfg energy g
      = Inr (r, p', g')"
    and B: "measurements_within 1000 (measured r)"
    and i: "i \<le> length (t_list r)"
  shows "\<exists>st. locals_before reset step seeded (new_AdaptiveThresholdPolicy 2 1000 10) cfg energy g i
        = Inr st \<and> keepalive_inv i st"
  using i
proof (induction i)
  case 0
  have "keepalive_inv 0
      (init_locals reset seeded (new_AdaptiveThresholdPolicy 2 1000 10) cfg g)"
    by (simp add: keepalive_inv_def init_locals_def new_AdaptiveThresholdPolicy_def)
  then show ?case
    by (simp add: locals_before_def)
next
  case (Suc i)
  let ?lb = "locals_before reset step seeded (new_AdaptiveThresholdPolicy 2 1000 10) cfg energy g"
  from Suc obtain st where st: "?lb i = Inr st" and inv: "keepalive_inv i st"
    by auto
  have "i \<le> length (t_list r)"
    using Suc.prems by simp
  from simulate_prefix_ex [OF run this] st have m: "measured_v st = take i (measured r)"
    by simp
  from simulate_prefix_ex [OF run Suc.prems] obtain st' where st': "?lb (Suc i) = Inr st'"
    by auto
  have t: "tick step cfg energy i st = Inr st'"
    using st st' by (simp add: locals_before_Suc)
  have "keepalive_inv (Suc i) st'"
    using dt inv locals_before_last_measurement [OF st] t
  proof (rule keepalive_step)
    show "measurements_within 1000 (measured_v st)"
      unfolding m using B by (rule measurements_within_take)
  qed
  with st' show ?case
    by simp
qed

lemma keepalive_result:
  assumes d: "duration_s cfg = 30" and dt: "dt_s cfg = 1"
    and run: "simulate reset step seeded (new_AdaptiveThresholdPolicy 2 1000 10) cfg energy g
      = Inr (r, p', g')"
    and B: "measurements_within 1000 (measured r)"
  shows "samples_taken r = 16" "packets_sent r = 3"
    "sent r = map (\<lambda>i. i \<in> {2, 12, 22}) [0 ..< 31]"
proof -
  have "steps_of cfg = Inr 30"
    using steps_of_unit [OF dt] d by simp
  then have n: "length (t_list r) = 31"
    using simulate_length [OF run] by simp
  then have le: "31 \<le> length (t_list r)"
    by simp
  obtain st r_st where st: "locals_before reset step seeded
      (new_AdaptiveThresholdPolicy 2 1000 10) cfg energy g 31 = Inr st"
    and fin: "loop step cfg energy [31 ..< length (t_list r)] st = Inr r_st" "r = result r_st"
    using simulate_prefix [OF run le] by metis
  have "loop step cfg energy [] st = Inr r_st"
    using fin(1) unfolding n by simp
  then have r: "r = result st"
    using fin(2) by simp
  have inv: "keepalive_inv 31 st"
    using keepalive_locals [OF dt run B le] st by simp
  show "samples_taken r = 16" "packets_sent r = 3"
    using inv by (simp_all add: keepalive_inv_def r result_def)
  have "sent r = map (\<lambda>k. k mod 10 = 2) [0 ..< 31]"
    using inv by (simp add: keepalive_inv_def r)
  also have "\<dots> = map (\<lambda>i. i \<in> {2, 12, 22}) [0 ..< 31]"
  proof (rule map_cong [OF refl])
    fix k :: nat
    assume "k \<in> set [0 ..< 31]"
    then have "k < 31"
      by simp
    then show "(k mod 10 = 2) = (k \<in> {2, 12, 22})"
      by auto arith+
  qed
  finally show "sent r = map (\<lambda>i. i \<in> {2, 12, 22}) [0 ..< 31]" .
qed

text \<open>Without sensor noise every measurement is a value of the signal.\<close>

lemma ground_truth_range: "\<bar>ground_truth t cfg - signal_base cfg\<bar> \<le> \<bar>signal_amp cfg\<bar> + 1 / 4"
proof -
  define s1 where "s1 = sin (2 * pi / max 1 (signal_period_s cfg) * of_int t)"
  define s2 where "s2 = sin (2 * pi / max 1 (signal_period_s cfg) * 0.33 * of_int t)"
  have e: "ground_truth t cfg = signal_base cfg + signal_amp cfg * s1 + 0.25 * s2"
    unfolding ground_truth_def Let_def s1_def s2_def ..
  have s: "\<bar>s1\<bar> \<le> 1" "\<bar>s2\<bar> \<le> 1"
    unfolding s1_def s2_def by (rule abs_sin_le_one)+
  have "\<bar>signal_amp cfg * s1\<bar> \<le> \<bar>signal_amp cfg\<bar>"
    using s(1) by (simp add: abs_mult mult_left_le)
  then have "\<bar>signal_amp cfg * s1 + s2 / 4\<bar> \<le> \<bar>signal_amp cfg\<bar> + 1 / 4"
    using s(2) by linarith
  then show ?thesis
    unfolding e by simp
qed

lemma tick_noiseless:
  assumes "noise_std cfg = 0" "tick stp cfg energy i st = Inr st'"
  shows "\<exists>m. measured_v st' = measured_v st @ [m]
    \<and> (m = None \<or> m = Some (ground_truth (now_s_at cfg i) cfg))"
  using assms
  by (auto elim!: tick_InrE simp: sense_step_def gauss_def Let_def transmit_step_lists
      split: if_splits)

lemma loop_noiseless:
  assumes "noise_std cfg = 0" "loop stp cfg energy xs st = Inr st'"
    "\<forall>a. Some a \<in> set (measured_v st) \<longrightarrow> (\<exists>t. a = ground_truth t cfg)"
  shows "\<forall>a. Some a \<in> set (measured_v st') \<longrightarrow> (\<exists>t. a = ground_truth t cfg)"
  using assms(2,3)
proof (induction xs arbitrary: st)
  case Nil
  then show ?case by simp
next
  case (Cons i xs)
  from Cons.prems(1) obtain st1 where t: "tick stp cfg energy i st = Inr st1"
    and l: "loop stp cfg energy xs st1 = Inr st'"
    by (auto split: sum.splits)
  have "\<forall>a. Some a \<in> set (measured_v st1) \<longrightarrow> (\<exists>t. a = ground_truth t cfg)"
    using tick_noiseless [OF assms(1) t] Cons.prems(2) by auto
  then show ?case
    by (rule Cons.IH [OF l])
qed

lemma simulate_noiseless:
  assumes "noise_std cfg = 0" "simulate rst stp seeded policy cfg energy g = Inr (r, p', g')"
    "Some a \<in> set (measured r)"
  shows "\<exists>t. a = ground_truth t cfg"
proof -
  obtain n st where l: "loop stp cfg energy [0 ..< nat (n + 1)]
      (init_locals rst seeded policy cfg g) = Inr st" and r: "r = result st"
    using assms(2) unfolding simulate_Inr_iff by blast
  have "\<forall>a. Some a \<in> set (measured_v st) \<longrightarrow> (\<exists>t. a = ground_truth t cfg)"
    by (rule loop_noiseless [OF assms(1) l]) simp
  then show ?thesis
    using assms(3) by (simp add: r)
qed

lemma noiseless_run_within:
  assumes "simulate rst stp seeded policy noiseless_cfg energy g = Inr (r, p', g')"
  shows "measurements_within 1000 (measured r)"
  unfolding measurements_within_iff
proof (intro allI impI, elim conjE)
  fix a b
  assume "Some a \<in> set (measured r)" "Some b \<in> set (measured r)"
  then obtain t u where "a = ground_truth t noiseless_cfg" "b = ground_truth u noiseless_cfg"
    using simulate_noiseless [OF _ assms] by (metis NodeConfig.select_convs(8)
        NodeConfig.surjective NodeConfig.update_convs(8) noiseless_cfg_def)
  then have "\<bar>a - 20\<bar> \<le> 13 / 4" "\<bar>b - 20\<bar> \<le> 13 / 4"
    using ground_truth_range [of t noiseless_cfg] ground_truth_range [of u noiseless_cfg]
    by (simp_all add: noiseless_cfg_def default_NodeConfig_def)
  then show "\<bar>a - b\<bar> < 1000"
    by linarith
qed

lemma noiseless_run:
  "\<exists>r p' g'.
     simulate reset step still_seeded (new_AdaptiveThresholdPolicy 2 1000 10) noiseless_cfg
       default_EnergyModel still_rng = Inr (r, p', g')"
proof (rule simulate_returns)
  show "usable (new_AdaptiveThresholdPolicy 2 1000 10)"
    by (simp add: new_AdaptiveThresholdPolicy_def)
  show "steps_of noiseless_cfg = Inr 30"
    by (rule steps_of_exact) (simp_all add: noiseless_cfg_def default_NodeConfig_def)
  show "e_tx default_EnergyModel (payload_bytes noiseless_cfg) = Inr (1038 / 3125)"
    by (simp add: e_tx_def default_EnergyModel_def noiseless_cfg_def default_NodeConfig_def
        int_to_float_small)
qed

lemma keepalive_sent_list:
  "map (\<lambda>i. i \<in> {2, 12, 22}) [0 ..< 31]
     = [False, False, True, False, False, False, False, False, False, False,
        False, False, True, False, False, False, False, False, False, False,
        False, False, True, False, False, False, False, False, False, False, False]"
  by (simp add: upt_rec)

text \<open>
  C5, as stated: with \<^verbatim>\<open>AdaptiveThresholdPolicy(2, 1000, 10)\<close> over 30 seconds,
  \<open>packets_sent = 4\<close> and packets are sent at the ticks 0, 10, 20 and 30. In the run
  without noise below, where any two measurements differ by less than 1000, 16 samples
  are taken but 3 packets are sent, at the ticks 2, 12 and 22: nothing is sent at tick 0,
  where \<^verbatim>\<open>step\<close> has no measurement yet, and the keep-alive rule counts its ten seconds
  from tick 2.
\<close>

theorem keepalive_counterexample:
  "map_sum id (measurements_within 1000 \<circ> measured \<circ> fst)
     (simulate reset step still_seeded (new_AdaptiveThresholdPolicy 2 1000 10) noiseless_cfg
        default_EnergyModel still_rng) = Inr True
   \<and> map_sum id (samples_taken \<circ> fst)
     (simulate reset step still_seeded (new_AdaptiveThresholdPolicy 2 1000 10) noiseless_cfg
        default_EnergyModel still_rng) = Inr 16
   \<and> map_sum id (packets_sent \<circ> fst)
     (simulate reset step still_seeded (new_AdaptiveThresholdPolicy 2 1000 10) noiseless_cfg
        default_EnergyModel still_rng) = Inr 3
   \<and> map_sum id (sent \<circ> fst)
     (simulate reset step still_seeded (new_AdaptiveThresholdPolicy 2 1000 10) noiseless_cfg
        default_EnergyModel still_rng)
     = Inr [False, False, True, False, False, False, False, False, False, False,
            False, False, True, False, False, False, False, False, False, False,
            False, False, True, False, False, False, False, False, False, False, False]"
proof -
  obtain r p' g' where run:
    "simulate reset step still_seeded (new_AdaptiveThresholdPolicy 2 1000 10) noiseless_cfg
       default_EnergyModel still_rng = Inr (r, p', g')"
    using noiseless_run by blast
  have w: "measurements_within 1000 (measured r)"
    using run by (rule noiseless_run_within)
  have c: "duration_s noiseless_cfg = 30" "dt_s noiseless_cfg = 1"
    by (simp_all add: noiseless_cfg_def default_NodeConfig_def)
  note k = keepalive_result [OF c run w]
  have s: "sent r
     = [False, False, True, False, False, False, False, False, False, False,
        False, False, True, False, False, False, False, False, False, False,
        False, False, True, False, False, False, False, False, False, False, False]"
    unfolding k(3) by (rule keepalive_sent_list)
  show ?thesis
    unfolding run using w k(1,2) s by simp
qed

text \<open>
  C5, amended: for a run of \<^verbatim>\<open>simulate\<close> with \<^verbatim>\<open>AdaptiveThresholdPolicy(2, 1000, 10)\<close>,
  \<open>duration_s = 30\<close> and \<open>dt_s = 1\<close> in which any two measurements differ by less than
  1000, the result has \<open>samples_taken = 16\<close> and \<open>packets_sent = 3\<close>, and \<open>sent[i]\<close> holds
  exactly at the ticks 2, 12 and 22: tick 2 from the rule of no prior transmission, the
  others from the keep-alive rule. The run returns a result when \<^verbatim>\<open>e_tx\<close> does not raise
  for the payload size, that is with a bitrate that is not zero and a number of bits that
  fits a float.
\<close>

theorem keepalive_schedule:
  "duration_s cfg = 30 \<and> dt_s cfg = 1 \<longrightarrow>
     (simulate reset step seeded (new_AdaptiveThresholdPolicy 2 1000 10) cfg energy g
          = Inr (r, p', g')
        \<and> measurements_within 1000 (measured r) \<longrightarrow>
      samples_taken r = 16 \<and> packets_sent r = 3
        \<and> sent r = map (\<lambda>i. i \<in> {2, 12, 22}) [0 ..< 31])
     \<and> ((\<exists>c. e_tx energy (payload_bytes cfg) = Inr c) \<longrightarrow>
          (\<exists>r1 p1 g1. simulate reset step seeded (new_AdaptiveThresholdPolicy 2 1000 10)
             cfg energy g = Inr (r1, p1, g1)))"
proof (intro impI conjI)
  assume c: "duration_s cfg = 30 \<and> dt_s cfg = 1"
    and run: "simulate reset step seeded (new_AdaptiveThresholdPolicy 2 1000 10) cfg energy g
          = Inr (r, p', g')
        \<and> measurements_within 1000 (measured r)"
  from c run show "samples_taken r = 16" "packets_sent r = 3"
    "sent r = map (\<lambda>i. i \<in> {2, 12, 22}) [0 ..< 31]"
    using keepalive_result [of cfg seeded energy g r p' g'] by simp_all
next
  assume c: "duration_s cfg = 30 \<and> dt_s cfg = 1"
    and "\<exists>c. e_tx energy (payload_bytes cfg) = Inr c"
  then obtain e where e: "e_tx energy (payload_bytes cfg) = Inr e"
    by blast
  have u: "usable (new_AdaptiveThresholdPolicy 2 1000 10)"
    by (simp add: new_AdaptiveThresholdPolicy_def)
  have s: "steps_of cfg = Inr 30"
    using steps_of_unit [of cfg] c by simp
  show "\<exists>r1 p1 g1. simulate reset step seeded (new_AdaptiveThresholdPolicy 2 1000 10)
             cfg energy g = Inr (r1, p1, g1)"
    by (rule simulate_returns [OF u s e])
qed

theorem keepalive_schedule_witness:
  "duration_s noiseless_cfg = 30 \<and> dt_s noiseless_cfg = 1
   \<and> e_tx default_EnergyModel (payload_bytes noiseless_cfg) = Inr (1038 / 3125)
   \<and> (\<exists>r p' g'.
         simulate reset step still_seeded (new_AdaptiveThresholdPolicy 2 1000 10) noiseless_cfg
           default_EnergyModel still_rng = Inr (r, p', g')
         \<and> measurements_within 1000 (measured r)
         \<and> samples_taken r = 16 \<and> packets_sent r = 3
         \<and> sent r = map (\<lambda>i. i \<in> {2, 12, 22}) [0 ..< 31])"
proof -
  have c: "duration_s noiseless_cfg = 30 \<and> dt_s noiseless_cfg = 1"
    and b: "e_tx default_EnergyModel (payload_bytes noiseless_cfg) = Inr (1038 / 3125)"
    by (simp_all add: noiseless_cfg_def default_NodeConfig_def default_EnergyModel_def
        e_tx_def int_to_float_small)
  obtain r p' g' where run:
    "simulate reset step still_seeded (new_AdaptiveThresholdPolicy 2 1000 10) noiseless_cfg
       default_EnergyModel still_rng = Inr (r, p', g')"
    using keepalive_schedule [of noiseless_cfg still_seeded default_EnergyModel still_rng]
      c b by blast
  have w: "measurements_within 1000 (measured r)"
    using run by (rule noiseless_run_within)
  show ?thesis
    using keepalive_schedule [of noiseless_cfg still_seeded default_EnergyModel still_rng
        r p' g'] c b run w
    by blast
qed

subsection \<open>The duty-cycling policy\<close>

text \<open>
  C7. For every \<open>DutyCyclingPolicy\<close> (as \<^verbatim>\<open>__init__\<close> builds it) and every time \<open>t\<close>,
  \<^verbatim>\<open>step\<close> returns \<open>awake = (t mod wake_every_s < awake_window_s)\<close> and
  \<open>take_sample = transmit = (awake \<and> t mod sample_every_s = 0)\<close>, the remainder taken on
  the absolute time. The output does not depend on the arguments \<open>last_m\<close> and
  \<open>last_tx\<close>, and the policy has no state that the call changes.
\<close>

theorem duty_cycling_step:
  "step (new_DutyCyclingPolicy w a n) t last_m last_tx =
     Inr (\<lparr>awake = (t mod wake_every_s (new_DutyCyclingPolicy w a n)
                        < awake_window_s (new_DutyCyclingPolicy w a n)),
           take_sample = (t mod wake_every_s (new_DutyCyclingPolicy w a n)
                            < awake_window_s (new_DutyCyclingPolicy w a n)
                          \<and> t mod sample_every_s (new_DutyCyclingPolicy w a n) = 0),
           transmit = (t mod wake_every_s (new_DutyCyclingPolicy w a n)
                         < awake_window_s (new_DutyCyclingPolicy w a n)
                       \<and> t mod sample_every_s (new_DutyCyclingPolicy w a n) = 0)\<rparr>,
          new_DutyCyclingPolicy w a n)"
proof -
  have nz: "max 1 w \<noteq> 0" "max 1 n \<noteq> 0"
    by simp_all
  show ?thesis
    by (simp add: new_DutyCyclingPolicy_def py_mod_def nz Let_def)
qed

theorem duty_cycling_step_witness:
  "step (new_DutyCyclingPolicy 10 2 5) 10 (Some 3) None =
     Inr (\<lparr>awake = True, take_sample = True, transmit = True\<rparr>, DutyCyclingPolicy 10 2 5)
   \<and> step (new_DutyCyclingPolicy 10 2 5) 5 None (Some 0) =
     Inr (\<lparr>awake = False, take_sample = False, transmit = False\<rparr>, DutyCyclingPolicy 10 2 5)
   \<and> step (new_DutyCyclingPolicy 10 2 5) 11 None None =
     Inr (\<lparr>awake = True, take_sample = False, transmit = False\<rparr>, DutyCyclingPolicy 10 2 5)"
  using duty_cycling_step [of 10 2 5 10 "Some 3" None]
    duty_cycling_step [of 10 2 5 5 None "Some 0"]
    duty_cycling_step [of 10 2 5 11 None None]
  by (simp add: new_DutyCyclingPolicy_def)

subsection \<open>The signal\<close>

text \<open>
  C8, as stated: \<open>ground_truth\<close> equals the specification's formula for every
  configuration. It fails for a period below one second, which line 12 replaces by one:
  at \<open>t = 1\<close> and a period of half a second the harmonic term is positive in the code and
  negative in the formula.
\<close>

theorem ground_truth_spec_counterexample:
  "ground_truth 1 fast_signal_cfg \<noteq> ground_truth_spec 1 fast_signal_cfg"
proof -
  have pos: "0 < sin (33 * pi / 50)"
    by (rule sin_gt_zero) (simp_all add: field_simps)
  have neg: "sin (33 * pi / 25) < 0"
    by (rule sin_lt_zero) (simp_all add: field_simps)
  show ?thesis
    using pos neg
    by (simp add: ground_truth_def ground_truth_spec_def fast_signal_cfg_def
        default_NodeConfig_def field_simps)
qed

text \<open>
  C8, amended: \<open>ground_truth\<close> equals the specification's formula with the period
  \<open>max 1 signal_period_s\<close>; it is the formula itself when the period is at least one.
\<close>

theorem ground_truth_formula:
  "ground_truth t cfg =
     ground_truth_spec t (cfg\<lparr>signal_period_s := max 1 (signal_period_s cfg)\<rparr>)
   \<and> (1 \<le> signal_period_s cfg \<longrightarrow> ground_truth t cfg = ground_truth_spec t cfg)"
  by (simp add: ground_truth_def ground_truth_spec_def max_def algebra_simps)

theorem ground_truth_formula_witness:
  "(1::real) \<le> signal_period_s default_NodeConfig
   \<and> ground_truth 30 default_NodeConfig = ground_truth_spec 30 default_NodeConfig"
proof -
  have h: "(1::real) \<le> signal_period_s default_NodeConfig"
    by (simp add: default_NodeConfig_def)
  show ?thesis
    using h ground_truth_formula [of 30 default_NodeConfig] by simp
qed

end
